theory Spec2Isabelle
  imports Main "HOL-Library.Word" "HOL-Library.Multiset"
begin

section \<open>JavaScript strings and the two hashtag tokenizers\<close>

text \<open>
  A JavaScript string is a sequence of 16-bit code units. \<open>js_str\<close> turns an ASCII
  literal into such a sequence, so that the inputs of the source can be written down.
\<close>

type_synonym code_unit = "16 word"
type_synonym js_string = "code_unit list"

definition js_str :: "string \<Rightarrow> js_string" where
  "js_str s = map of_char s"

text \<open>
  The class \<^verbatim>\<open>\s\<close> of a JavaScript regular expression: the WhiteSpace and
  LineTerminator code points of ECMAScript (tab, LF, VT, FF, CR, space, NBSP, U+1680,
  U+2000 to U+200A, U+2028, U+2029, U+202F, U+205F, U+3000, U+FEFF).
\<close>

definition is_white_space :: "code_unit \<Rightarrow> bool" where
  "is_white_space c =
     (let n = unat c in
      n = 0x09 \<or> n = 0x0A \<or> n = 0x0B \<or> n = 0x0C \<or> n = 0x0D \<or> n = 0x20 \<or>
      n = 0xA0 \<or> n = 0x1680 \<or> (0x2000 \<le> n \<and> n \<le> 0x200A) \<or>
      n = 0x2028 \<or> n = 0x2029 \<or> n = 0x202F \<or> n = 0x205F \<or> n = 0x3000 \<or>
      n = 0xFEFF)"

text \<open>
  \<^verbatim>\<open>str.split(/[class]+/)\<close>: the string is cut at every maximal run of separator
  characters. A separator run at the start or at the end leaves an empty first or last
  piece, and the empty string gives one empty piece, as in JavaScript.
\<close>

fun js_split :: "('c \<Rightarrow> bool) \<Rightarrow> 'c list \<Rightarrow> 'c list list" where
  "js_split sep [] = [[]]"
| "js_split sep (c # cs) =
     (if sep c then
        (case cs of
           [] \<Rightarrow> [] # js_split sep cs
         | d # ds \<Rightarrow> if sep d then js_split sep cs else [] # js_split sep cs)
      else
        (case js_split sep cs of
           [] \<Rightarrow> [[c]]
         | t # ts \<Rightarrow> (c # t) # ts))"

text \<open>\<^verbatim>\<open>tag.startsWith('#')\<close>\<close>

definition starts_with_hash :: "js_string \<Rightarrow> bool" where
  "starts_with_hash t = (case t of [] \<Rightarrow> False | c # _ \<Rightarrow> c = 0x23)"

text \<open>
  Upload (POST /api/snaps):
  \<^verbatim>\<open>hashtags.split(/[\s,]+/).filter(tag => tag.startsWith('#'))\<close>
\<close>

definition upload_sep :: "code_unit \<Rightarrow> bool" where
  "upload_sep c = (is_white_space c \<or> c = 0x2C)"

definition upload_tags :: "js_string \<Rightarrow> js_string list" where
  "upload_tags h = filter starts_with_hash (js_split upload_sep h)"

text \<open>
  Feed fallback (GET /api/feed):
  \<^verbatim>\<open>snap.hashtags.split(/\s+/).filter(tag => tag.startsWith('#'))\<close>
\<close>

definition fallback_tags :: "js_string \<Rightarrow> js_string list" where
  "fallback_tags h = filter starts_with_hash (js_split is_white_space h)"

section \<open>Data model\<close>

text \<open>
  Primary keys are UUIDs in the source; they are modelled as natural numbers. Timestamps
  are milliseconds since the epoch. A nullable column is an \<open>option\<close>.
\<close>

type_synonym uuid = nat
type_synonym timestamp = int
type_synonym bytes = "8 word list"

text \<open>
  Table \<^verbatim>\<open>users\<close> (db-pg.js, initDb). The columns created_at, updated_at,
  last_login and bio are never read or written by server-pg.js and are left out.
\<close>

record user =
  user_id :: uuid
  username :: js_string
  email :: js_string
  password_hash :: js_string
  profile_picture_url :: "js_string option"
  is_active :: "bool option"

text \<open>
  The two URL shapes the server builds:
  \<^verbatim>\<open>`/api/snaps/image/${Date.now()}-${req.file.originalname}`\<close> (stored in image_url) and
  \<^verbatim>\<open>`/api/snaps/image/${snapId}`\<close> (sent to clients).
\<close>

datatype url = VirtualUrl int js_string | ImageUrl uuid

text \<open>
  Table \<^verbatim>\<open>snaps\<close>: the columns of initDb together with the columns hashtags,
  image_data and mime_type that the INSERT of POST /api/snaps writes.
\<close>

record snap =
  snap_id :: uuid
  owner_id :: uuid
  image_url :: url
  caption :: "js_string option"
  hashtags :: "js_string option"
  location :: "js_string option"
  image_data :: bytes
  mime_type :: js_string
  created_at :: timestamp
  expires_at :: "timestamp option"
  view_count :: "int option"
  is_public :: "bool option"

text \<open>
  The store: the three tables. A table is the list of its rows in the order in which the
  storage engine delivers them to a scan; SQL leaves that order open.
  The rows of \<^verbatim>\<open>snaps_hashtags\<close> are pairs (snap_id, hashtag).
\<close>

record store =
  users :: "user list"
  snaps :: "snap list"
  snaps_hashtags :: "(uuid \<times> js_string) list"

definition empty_store :: store where
  "empty_store = \<lparr>users = [], snaps = [], snaps_hashtags = []\<rparr>"

text \<open>Twelve hours, in milliseconds.\<close>

definition twelve_hours :: int where
  "twelve_hours = 12 * 60 * 60 * 1000"

datatype 'a response =
    OK 'a
  | Created 'a
  | BadRequest
  | Unauthorized
  | Forbidden
  | NotFound
  | ServerError

section \<open>Expiry Reaper: cleanupExpiredSnaps\<close>

text \<open>
  Modelled from the spec: the declaration of \<^verbatim>\<open>snaps_hashtags\<close> is not in the
  sources (initDb only says "Create other tables (hashtags, likes, comments, etc.)").
  Following the spec, its rows are deleted with their parent snap (a foreign key with
  ON DELETE CASCADE).
\<close>

definition cascade_hashtags :: "uuid list \<Rightarrow> (uuid \<times> js_string) list \<Rightarrow> (uuid \<times> js_string) list" where
  "cascade_hashtags deleted rows = filter (\<lambda>(sid, tag). sid \<notin> set deleted) rows"

text \<open>
  The statements of a reaper pass that can throw: BEGIN, the DELETE and COMMIT.
  ROLLBACK in the catch block is taken to succeed.
\<close>

record reaper_faults =
  reaper_begin_fails :: bool
  reaper_delete_fails :: bool
  reaper_commit_fails :: bool

datatype reaper_outcome = Completed nat | Failed

text \<open>
  \<^verbatim>\<open>DELETE FROM snaps WHERE created_at < NOW() - INTERVAL '12 hours' RETURNING id, image_url\<close>
\<close>

definition is_stale :: "timestamp \<Rightarrow> snap \<Rightarrow> bool" where
  "is_stale now s = (created_at s < now - twelve_hours)"

text \<open>
  One pass. \<open>now\<close> is the value of NOW() in the pass's transaction. The result carries
  \<^verbatim>\<open>result.rowCount\<close>. Any thrown error ends in ROLLBACK and a log line: the store is
  left as it was and nothing propagates.
\<close>

definition cleanupExpiredSnaps :: "reaper_faults \<Rightarrow> timestamp \<Rightarrow> store \<Rightarrow> reaper_outcome \<times> store" where
  "cleanupExpiredSnaps flt now st =
     (if reaper_begin_fails flt then (Failed, st)
      else if reaper_delete_fails flt then (Failed, st)
      else
        let deleted = filter (is_stale now) (snaps st);
            st' = st\<lparr>snaps := filter (\<lambda>s. \<not> is_stale now s) (snaps st),
                     snaps_hashtags := cascade_hashtags (map snap_id deleted) (snaps_hashtags st)\<rparr>
        in if reaper_commit_fails flt then (Failed, st)
           else (Completed (length deleted), st'))"

definition no_reaper_faults :: reaper_faults where
  "no_reaper_faults =
     \<lparr>reaper_begin_fails = False, reaper_delete_fails = False, reaper_commit_fails = False\<rparr>"

section \<open>Upload: POST /api/snaps\<close>

text \<open>
  The process state the upload touches: the store, the files on disk (multer's
  temporary files among them, as a map from path to content) and the snaps broadcast
  over the live-update channel by \<^verbatim>\<open>emitNewSnap\<close>.
\<close>

record snap_summary =
  sum_id :: uuid
  sum_username :: js_string
  sum_image_url :: url
  sum_caption :: "js_string option"
  sum_location :: "js_string option"
  sum_created_at :: timestamp

record server =
  db :: store
  files :: "js_string \<rightharpoonup> bytes"
  outbox :: "snap_summary list"

text \<open>
  The Authorization header as the JWT library sees it: absent (or without a second
  word), present but rejected by \<^verbatim>\<open>jwt.verify\<close>, or a valid token whose payload
  carries the user id.
\<close>

datatype credential = NoToken | BadToken | Token uuid

text \<open>\<^verbatim>\<open>req.file\<close> as multer leaves it.\<close>

record upload_file =
  file_path :: js_string
  originalname :: js_string
  mimetype :: js_string

text \<open>
  The request after multer has parsed it. \<open>other_fields\<close> are the form fields the
  handler never looks at (a client-sent expires_at or created_at would be there).
\<close>

record upload_request =
  req_auth :: credential
  req_file :: "upload_file option"
  body_caption :: "js_string option"
  body_hashtags :: "js_string option"
  body_location :: "js_string option"
  other_fields :: "(js_string \<times> js_string) list"

text \<open>
  What the handler reads from outside the request:
  \<^item> \<open>js_now\<close>: the value of \<^verbatim>\<open>new Date()\<close>, read after BEGIN has returned;
  \<^item> \<open>local_tza\<close>: ECMAScript's LocalTZA(t, isUTC), the server's offset from UTC;
  \<^item> \<open>date_now\<close>: \<^verbatim>\<open>Date.now()\<close> in the virtual URL;
  \<^item> \<open>txn_now\<close>: PostgreSQL's NOW(), the start time of the transaction, which the
    column default of created_at takes;
  \<^item> \<open>new_uuid\<close>: the value of uuid_generate_v4() for the inserted row.
\<close>

record upload_env =
  js_now :: timestamp
  local_tza :: "int \<Rightarrow> bool \<Rightarrow> int"
  date_now :: timestamp
  txn_now :: timestamp
  new_uuid :: uuid

text \<open>
  \<^verbatim>\<open>expiresAt.setHours(expiresAt.getHours() + 12)\<close>. setHours works on local time:
  t is taken to local time (t + LocalTZA(t, true)), the hour field grows by 12, which
  adds twelve hours to the local time value, and the result is taken back to UTC
  (date - LocalTZA(date, false)).
\<close>

definition set_hours_plus_12 :: "(int \<Rightarrow> bool \<Rightarrow> int) \<Rightarrow> timestamp \<Rightarrow> timestamp" where
  "set_hours_plus_12 tza t =
     (let local = t + tza t True;
          date = local + twelve_hours
      in date - tza date False)"

text \<open>
  The statements of the upload transaction that can throw by a storage fault. A failed
  hashtag insert depends on the tag. ROLLBACK in the catch block is taken to succeed,
  and \<^verbatim>\<open>emitNewSnap\<close> (module ./socket, which is not among the sources) and the
  sending of the response are taken not to throw. The file operations throw by the
  state of the disk alone (no such file).
\<close>

record upload_faults =
  begin_fails :: bool
  select_user_fails :: bool
  insert_snap_fails :: bool
  insert_tag_fails :: "js_string \<Rightarrow> bool"
  commit_fails :: bool

datatype thrown = DbError | JwtError | FsError | MulterError

text \<open>
  Modelled from the spec: the declaration of \<^verbatim>\<open>snaps_hashtags\<close> is not in the
  sources; following the spec, its rows are unique per (snap id, tag) pair. Against
  that constraint the statement
  \<^verbatim>\<open>INSERT INTO snaps_hashtags (snap_id, hashtag) VALUES ($1, $2) ON CONFLICT DO NOTHING\<close>
  adds the pair unless it is there already.
\<close>

definition insert_hashtag :: "uuid \<Rightarrow> js_string \<Rightarrow> (uuid \<times> js_string) list \<Rightarrow> (uuid \<times> js_string) list" where
  "insert_hashtag sid tag rows = (if (sid, tag) \<in> set rows then rows else rows @ [(sid, tag)])"

text \<open>
  The loop \<^verbatim>\<open>for (const tag of tags) { try { INSERT } catch { console.error } }\<close>:
  a failed insert is caught and logged and the loop goes on. The inserts run inside the
  transaction opened by BEGIN, and in PostgreSQL a failed statement leaves the
  transaction aborted: every later statement of the transaction is refused, which the
  loop catches alike. So no tag after the first failing one is inserted.
\<close>

fun insert_tags :: "(js_string \<Rightarrow> bool) \<Rightarrow> uuid \<Rightarrow> js_string list \<Rightarrow> (uuid \<times> js_string) list \<Rightarrow> (uuid \<times> js_string) list" where
  "insert_tags fails sid [] rows = rows"
| "insert_tags fails sid (t # ts) rows =
     (if fails t then rows else insert_tags fails sid ts (insert_hashtag sid t rows))"

text \<open>\<^verbatim>\<open>req.body.hashtags || ''\<close> and the destructuring default \<^verbatim>\<open>location = ''\<close>.\<close>

definition raw_hashtags :: "upload_request \<Rightarrow> js_string" where
  "raw_hashtags req = (case body_hashtags req of None \<Rightarrow> [] | Some h \<Rightarrow> h)"

definition raw_location :: "upload_request \<Rightarrow> js_string" where
  "raw_location req = (case body_location req of None \<Rightarrow> [] | Some l \<Rightarrow> l)"

text \<open>
  Whether the hashtag loop of a request leaves the transaction aborted: the loop runs
  (\<^verbatim>\<open>if (hashtags)\<close>, the raw string is non-empty) and the insert of one of the tags
  fails.
\<close>

definition tags_abort :: "upload_faults \<Rightarrow> upload_request \<Rightarrow> bool" where
  "tags_abort flt req =
     (raw_hashtags req \<noteq> [] \<and> list_ex (insert_tag_fails flt) (upload_tags (raw_hashtags req)))"

text \<open>The row that the INSERT INTO snaps writes: view_count and is_public take their defaults.\<close>

definition new_snap_row :: "upload_env \<Rightarrow> upload_request \<Rightarrow> upload_file \<Rightarrow> uuid \<Rightarrow> bytes \<Rightarrow> snap" where
  "new_snap_row env req f uid imageData =
     \<lparr>snap_id = new_uuid env,
      owner_id = uid,
      image_url = VirtualUrl (date_now env) (originalname f),
      caption = body_caption req,
      hashtags = Some (raw_hashtags req),
      location = Some (raw_location req),
      image_data = imageData,
      mime_type = mimetype f,
      created_at = txn_now env,
      expires_at = Some (set_hours_plus_12 (local_tza env) (js_now env)),
      view_count = Some 0,
      is_public = Some True\<rparr>"

text \<open>
  The second half of the \<^verbatim>\<open>try\<close> block, from the INSERT INTO snaps to the
  response: the insert (which also fails on a duplicate primary key), the hashtag
  loop when the raw string is non-empty, the removal of the temporary file, COMMIT,
  the broadcast and the 201 response. \<open>Inl\<close> is a thrown error, \<open>Inr\<close> a normal
  end: a response and the state after it. COMMIT on a transaction that the hashtag
  loop has left aborted does not throw: PostgreSQL ends the transaction by rolling it
  back. The handler then still broadcasts and answers 201, and neither the snap row nor
  a hashtag row is stored.
\<close>

definition insert_and_commit :: "upload_env \<Rightarrow> upload_faults \<Rightarrow> upload_request \<Rightarrow> upload_file \<Rightarrow> uuid
    \<Rightarrow> js_string \<Rightarrow> bytes \<Rightarrow> server \<Rightarrow> thrown + (snap_summary response \<times> server)" where
  "insert_and_commit env flt req f userId name imageData sv =
     (if insert_snap_fails flt \<or> new_uuid env \<in> snap_id ` set (snaps (db sv))
      then Inl DbError
      else
        let row = new_snap_row env req f userId imageData;
            tag_rows =
              (if raw_hashtags req \<noteq> []
               then insert_tags (insert_tag_fails flt) (snap_id row)
                      (upload_tags (raw_hashtags req)) (snaps_hashtags (db sv))
               else snaps_hashtags (db sv));
            files' = (files sv)(file_path f := None);
            summary =
              \<lparr>sum_id = snap_id row,
               sum_username = name,
               sum_image_url = ImageUrl (snap_id row),
               sum_caption = body_caption req,
               sum_location = Some (raw_location req),
               sum_created_at = created_at row\<rparr>
        in if commit_fails flt then Inl DbError
           else Inr (Created summary,
                  \<lparr>db = (if tags_abort flt req then db sv
                         else (db sv)\<lparr>snaps := snaps (db sv) @ [row],
                                        snaps_hashtags := tag_rows\<rparr>),
                   files = files',
                   outbox = outbox sv @ [summary]\<rparr>))"

text \<open>
  The \<^verbatim>\<open>try\<close> block: BEGIN, the token check and \<^verbatim>\<open>jwt.verify\<close>, the owner lookup
  \<^verbatim>\<open>SELECT id, username FROM users WHERE id = $1\<close>, \<^verbatim>\<open>fs.readFileSync\<close>, and the
  second half above. The two early returns (401, 404) leave the block without COMMIT
  or ROLLBACK and without touching the temporary file.
\<close>

definition upload_try :: "upload_env \<Rightarrow> upload_faults \<Rightarrow> upload_request \<Rightarrow> upload_file \<Rightarrow> server
    \<Rightarrow> thrown + (snap_summary response \<times> server)" where
  "upload_try env flt req f sv =
     (if begin_fails flt then Inl DbError
      else
        (case req_auth req of
           NoToken \<Rightarrow> Inr (Unauthorized, sv)
         | BadToken \<Rightarrow> Inl JwtError
         | Token uid \<Rightarrow>
             if select_user_fails flt then Inl DbError
             else
               (case find (\<lambda>u. user_id u = uid) (users (db sv)) of
                  None \<Rightarrow> Inr (NotFound, sv)
                | Some u \<Rightarrow>
                    (case files sv (file_path f) of
                       None \<Rightarrow> Inl FsError
                     | Some imageData \<Rightarrow>
                         insert_and_commit env flt req f uid (username u) imageData sv))))"

text \<open>
  The handler: 400 without a file; otherwise the \<^verbatim>\<open>try\<close> block, and on a thrown
  error the \<^verbatim>\<open>catch\<close> block: if \<^verbatim>\<open>req.file.path\<close> is a non-empty string the
  temporary file is unlinked (an error of that unlink is swallowed), the transaction is
  rolled back, the response is 500.
\<close>

definition post_snaps_handler :: "upload_env \<Rightarrow> upload_faults \<Rightarrow> upload_request \<Rightarrow> server
    \<Rightarrow> snap_summary response \<times> server" where
  "post_snaps_handler env flt req sv =
     (case req_file req of
        None \<Rightarrow> (BadRequest, sv)
      | Some f \<Rightarrow>
          (case upload_try env flt req f sv of
             Inr r \<Rightarrow> r
           | Inl e \<Rightarrow>
               (ServerError,
                sv\<lparr>files := (if file_path f \<noteq> [] then (files sv)(file_path f := None)
                                else files sv)\<rparr>)))"

text \<open>The middleware \<^verbatim>\<open>authenticateToken\<close>: \<open>None\<close> is \<^verbatim>\<open>next()\<close>.\<close>

definition authenticateToken :: "credential \<Rightarrow> snap_summary response option" where
  "authenticateToken c =
     (case c of NoToken \<Rightarrow> Some Unauthorized | BadToken \<Rightarrow> Some Forbidden | Token uid \<Rightarrow> None)"

text \<open>
  The route is \<^verbatim>\<open>app.post('/api/snaps', authenticateToken, upload.single('image'), handler)\<close>.
  \<open>post_snaps\<close> is the middleware followed by the handler, on the request and the
  state as multer leaves them (the temporary file is on disk).
\<close>

definition post_snaps :: "upload_env \<Rightarrow> upload_faults \<Rightarrow> upload_request \<Rightarrow> server
    \<Rightarrow> snap_summary response \<times> server" where
  "post_snaps env flt req sv =
     (case authenticateToken (req_auth req) of
        Some r \<Rightarrow> (r, sv)
      | None \<Rightarrow> post_snaps_handler env flt req sv)"

text \<open>
  multer runs between the middleware and the handler. With
  \<^verbatim>\<open>upload.single('image')\<close> and disk storage it writes the bytes of the file part to
  \<^verbatim>\<open>req.file.path\<close> before the handler starts; a part whose type is not one of the four
  allowed ones (fileFilter) or that is larger than 10 MB (limits.fileSize) ends the
  request with an error, which the error-handling middleware answers with 500, and
  leaves no file. The request record already describes the part as multer will leave it;
  \<open>content\<close> are its bytes.
\<close>

definition allowed_types :: "js_string list" where
  "allowed_types =
     [js_str ''image/jpeg'', js_str ''image/png'', js_str ''image/gif'', js_str ''image/webp'']"

definition multer_single :: "upload_request \<Rightarrow> bytes \<Rightarrow> server \<Rightarrow> thrown + server" where
  "multer_single req content sv =
     (case req_file req of
        None \<Rightarrow> Inr sv
      | Some f \<Rightarrow>
          if mimetype f \<notin> set allowed_types \<or> 10 * 1024 * 1024 < length content
          then Inl MulterError
          else Inr (sv\<lparr>files := (files sv)(file_path f \<mapsto> content)\<rparr>))"

text \<open>The whole route, from the incoming multipart request.\<close>

definition upload_route :: "upload_env \<Rightarrow> upload_faults \<Rightarrow> upload_request \<Rightarrow> bytes \<Rightarrow> server
    \<Rightarrow> snap_summary response \<times> server" where
  "upload_route env flt req content sv =
     (case authenticateToken (req_auth req) of
        Some r \<Rightarrow> (r, sv)
      | None \<Rightarrow>
          (case multer_single req content sv of
             Inl e \<Rightarrow> (ServerError, sv)
           | Inr sv1 \<Rightarrow> post_snaps_handler env flt req sv1))"

definition no_upload_faults :: upload_faults where
  "no_upload_faults =
     \<lparr>begin_fails = False, select_user_fails = False, insert_snap_fails = False,
      insert_tag_fails = (\<lambda>t. False), commit_fails = False\<rparr>"

section \<open>Feed Assembler: GET /api/feed\<close>

text \<open>
  A row of the feed query. \<open>row_hashtag_list\<close> is the value of
  \<^verbatim>\<open>(SELECT json_agg(h.hashtag) FROM snaps_hashtags h WHERE h.snap_id = sd.id)\<close>, which is
  NULL when the snap has no association row. The aliases "createdAt" and
  "profilePictureUrl" repeat two columns and are left out.
\<close>

record feed_row =
  row_id :: uuid
  row_caption :: "js_string option"
  row_hashtags :: "js_string option"
  row_location :: "js_string option"
  row_created_at :: timestamp
  row_user_id :: "uuid option"
  row_username :: "js_string option"
  row_profile_picture_url :: "js_string option"
  row_hashtag_list :: "js_string list option"
  row_image_url :: url

record feed_page =
  fp_snaps :: "feed_row list"
  fp_page :: int
  fp_limit :: int
  fp_total_items :: int
  fp_total_pages :: int

text \<open>
  The query parameters after \<^verbatim>\<open>parseInt\<close>: \<open>None\<close> is NaN (absent or not a number).
  \<^verbatim>\<open>Math.max(1, parseInt(req.query.page) || 1)\<close> and
  \<^verbatim>\<open>Math.min(50, Math.max(1, parseInt(req.query.limit) || 10))\<close>: NaN and 0 are falsy.
\<close>

definition feed_page_number :: "int option \<Rightarrow> int" where
  "feed_page_number q = max 1 (case q of None \<Rightarrow> 1 | Some n \<Rightarrow> if n = 0 then 1 else n)"

definition feed_limit :: "int option \<Rightarrow> int" where
  "feed_limit q = min 50 (max 1 (case q of None \<Rightarrow> 10 | Some n \<Rightarrow> if n = 0 then 10 else n))"

text \<open>The aggregate over the association rows of one snap: NULL on no rows.\<close>

definition hashtag_agg :: "store \<Rightarrow> uuid \<Rightarrow> js_string list option" where
  "hashtag_agg st sid =
     (let tags = map snd (filter (\<lambda>(i, tag). i = sid) (snaps_hashtags st))
      in if tags = [] then None else Some tags)"

text \<open>\<^verbatim>\<open>snaps s LEFT JOIN users u ON s.user_id = u.id\<close>: the user's columns, or NULLs.\<close>

definition feed_row_of :: "store \<Rightarrow> snap \<Rightarrow> feed_row" where
  "feed_row_of st s =
     (let u = find (\<lambda>u. user_id u = owner_id s) (users st) in
      \<lparr>row_id = snap_id s,
       row_caption = caption s,
       row_hashtags = hashtags s,
       row_location = location s,
       row_created_at = created_at s,
       row_user_id = map_option user_id u,
       row_username = map_option username u,
       row_profile_picture_url = Option.bind u profile_picture_url,
       row_hashtag_list = hashtag_agg st (snap_id s),
       row_image_url = ImageUrl (snap_id s)\<rparr>)"

text \<open>
  \<^verbatim>\<open>ORDER BY s.created_at DESC LIMIT $1 OFFSET $2\<close>. The only sort key is created_at.
  SQL leaves the order of rows with equal created_at open, and the engine may choose
  it anew for each query. \<open>newest_first\<close> takes one such order for every query: rows
  with equal created_at stay in the order in which the table delivers them. What holds
  of the feed in every order that the query admits is stated over
  \<open>order_by_created_at_desc\<close> below.
\<close>

definition newest_first :: "snap list \<Rightarrow> snap list" where
  "newest_first xs = sort_key (\<lambda>s. - created_at s) xs"

text \<open>
  What SQL asks of the result of \<^verbatim>\<open>ORDER BY s.created_at DESC\<close> over given rows:
  the same rows, with created_at non-increasing. The order of rows with equal
  created_at is left open; \<open>newest_first\<close> is one order that satisfies it.
\<close>

definition order_by_created_at_desc :: "snap list \<Rightarrow> snap list \<Rightarrow> bool" where
  "order_by_created_at_desc rows result =
     (mset result = mset rows \<and> sorted (map (\<lambda>s. - created_at s) result))"

definition feed_query :: "int \<Rightarrow> int \<Rightarrow> store \<Rightarrow> feed_row list" where
  "feed_query limit offset st =
     map (feed_row_of st) (take (nat limit) (drop (nat offset) (newest_first (snaps st))))"

text \<open>
  The post-processing of a row: an aggregated list is kept; without one the list is
  empty, or the raw hashtag string re-parsed when that is a non-empty string.
\<close>

definition process_row :: "feed_row \<Rightarrow> feed_row" where
  "process_row r =
     (case row_hashtag_list r of
        Some l \<Rightarrow> r
      | None \<Rightarrow>
          r\<lparr>row_hashtag_list :=
               Some (case row_hashtags r of
                       None \<Rightarrow> []
                     | Some h \<Rightarrow> if h \<noteq> [] then fallback_tags h else [])\<rparr>)"

text \<open>\<^verbatim>\<open>Math.ceil(totalSnaps / limit)\<close> for a limit of at least 1.\<close>

definition ceil_div :: "int \<Rightarrow> int \<Rightarrow> int" where
  "ceil_div a b = (a + b - 1) div b"

text \<open>
  The handler. The two flags say whether the windowed query and the query
  \<^verbatim>\<open>SELECT COUNT(*) FROM snaps\<close> throw. (The handler also takes a client from the
  connection pool, which it neither uses nor releases; the pool is not part of the
  model.)
\<close>

definition get_feed :: "bool \<Rightarrow> bool \<Rightarrow> int option \<Rightarrow> int option \<Rightarrow> store \<Rightarrow> feed_page response" where
  "get_feed query_fails count_fails qpage qlimit st =
     (let page = feed_page_number qpage;
          limit = feed_limit qlimit;
          offset = (page - 1) * limit
      in if query_fails then ServerError
         else
           let processedSnaps = map process_row (feed_query limit offset st)
           in if count_fails then ServerError
              else
                let totalSnaps = int (length (snaps st))
                in OK \<lparr>fp_snaps = processedSnaps,
                       fp_page = page,
                       fp_limit = limit,
                       fp_total_items = totalSnaps,
                       fp_total_pages = ceil_div totalSnaps limit\<rparr>)"

section \<open>Single-snap fetch and image fetch\<close>

record snap_detail =
  det_id :: uuid
  det_image_url :: url
  det_caption :: "js_string option"
  det_hashtags :: "js_string option"
  det_hashtag_list :: "js_string list option"
  det_location :: "js_string option"
  det_created_at :: timestamp
  det_username :: js_string
  det_profile_picture_url :: "js_string option"

definition snap_detail_of :: "store \<Rightarrow> snap \<Rightarrow> user \<Rightarrow> snap_detail" where
  "snap_detail_of st s u =
     \<lparr>det_id = snap_id s,
      det_image_url = image_url s,
      det_caption = caption s,
      det_hashtags = hashtags s,
      det_hashtag_list = hashtag_agg st (snap_id s),
      det_location = location s,
      det_created_at = created_at s,
      det_username = username u,
      det_profile_picture_url = profile_picture_url u\<rparr>"

text \<open>
  GET /api/snaps/:id:
  \<^verbatim>\<open>FROM snaps s JOIN users u ON s.user_id = u.id WHERE s.id = $1\<close>, 404 on no row,
  otherwise the first row.
\<close>

definition get_snap :: "bool \<Rightarrow> uuid \<Rightarrow> store \<Rightarrow> snap_detail response" where
  "get_snap query_fails sid st =
     (if query_fails then ServerError
      else case concat (map (\<lambda>s. map (snap_detail_of st s)
                                     (filter (\<lambda>u. user_id u = owner_id s) (users st)))
                            (filter (\<lambda>s. snap_id s = sid) (snaps st))) of
             [] \<Rightarrow> NotFound
           | r # _ \<Rightarrow> OK r)"

text \<open>
  GET /api/snaps/image/:id:
  \<^verbatim>\<open>SELECT image_data, mime_type FROM snaps WHERE id = $1\<close>, 404 on no row, otherwise
  the bytes with their content type.
\<close>

definition get_snap_image :: "bool \<Rightarrow> uuid \<Rightarrow> store \<Rightarrow> (js_string \<times> bytes) response" where
  "get_snap_image query_fails sid st =
     (if query_fails then ServerError
      else case filter (\<lambda>s. snap_id s = sid) (snaps st) of
             [] \<Rightarrow> NotFound
           | s # _ \<Rightarrow> OK (mime_type s, image_data s))"

section \<open>Accounts: POST /api/signup and POST /api/login\<close>

text \<open>
  The two account routes, as far as they touch the store. bcrypt is a parameter
  (\<open>hash\<close>, \<open>compare\<close>); the issued JWT is represented by the user id it carries.
  A storage fault of a statement is a flag; the INSERT also fails on a duplicate id,
  username or email (the PRIMARY KEY and UNIQUE constraints of \<^verbatim>\<open>users\<close>).
\<close>

record account_request =
  acc_username :: "js_string option"
  acc_password :: "js_string option"
  acc_email :: "js_string option"

record account =
  account_token :: credential
  account_id :: uuid
  account_username :: js_string

text \<open>
  In both routes \<^verbatim>\<open>!username || !password\<close> is true for a field that is undefined
  or the empty string. \<^verbatim>\<open>email\<close> has the destructuring default
  \<^verbatim>\<open>`${username}@example.com`\<close>.
\<close>

definition signup :: "(js_string \<Rightarrow> js_string) \<Rightarrow> uuid \<Rightarrow> bool \<Rightarrow> bool \<Rightarrow> account_request \<Rightarrow> store
    \<Rightarrow> account response \<times> store" where
  "signup hash new_id select_fails insert_fails req st =
     (case (acc_username req, acc_password req) of
        (Some name, Some pw) \<Rightarrow>
          if name = [] \<or> pw = [] then (BadRequest, st)
          else
            let mail = (case acc_email req of None \<Rightarrow> name @ js_str ''@example.com'' | Some e \<Rightarrow> e)
            in if select_fails then (ServerError, st)
               else if filter (\<lambda>u. username u = name) (users st) \<noteq> [] then (BadRequest, st)
               else if insert_fails \<or> new_id \<in> user_id ` set (users st)
                       \<or> mail \<in> email ` set (users st)
               then (ServerError, st)
               else
                 (Created \<lparr>account_token = Token new_id, account_id = new_id,
                           account_username = name\<rparr>,
                  st\<lparr>users := users st @
                       [\<lparr>user_id = new_id, username = name, email = mail,
                         password_hash = hash pw,
                         profile_picture_url = None, is_active = Some True\<rparr>]\<rparr>)
      | _ \<Rightarrow> (BadRequest, st))"

definition login :: "(js_string \<Rightarrow> js_string \<Rightarrow> bool) \<Rightarrow> bool \<Rightarrow> account_request \<Rightarrow> store
    \<Rightarrow> account response" where
  "login compare select_fails req st =
     (case (acc_username req, acc_password req) of
        (Some name, Some pw) \<Rightarrow>
          if name = [] \<or> pw = [] then BadRequest
          else if select_fails then ServerError
          else (case filter (\<lambda>u. username u = name) (users st) of
                  [] \<Rightarrow> Unauthorized
                | u # _ \<Rightarrow>
                    if \<not> compare pw (password_hash u) then Unauthorized
                    else OK \<lparr>account_token = Token (user_id u), account_id = user_id u,
                             account_username = username u\<rparr>)
      | _ \<Rightarrow> BadRequest)"

section \<open>The server as a state machine\<close>

text \<open>
  Every route of server-pg.js that reaches the store, and the reaper, as one operation
  each. The read routes and login run SELECT statements only: they produce a response
  and leave the state as it is.
\<close>

datatype operation =
    Upload upload_env upload_faults upload_request bytes
  | Reap reaper_faults timestamp
  | Feed bool bool "int option" "int option"
  | GetSnap bool uuid
  | GetImage bool uuid
  | Signup "js_string \<Rightarrow> js_string" uuid bool bool account_request
  | Login "js_string \<Rightarrow> js_string \<Rightarrow> bool" bool account_request

fun step :: "operation \<Rightarrow> server \<Rightarrow> server" where
  "step (Upload env flt req content) sv = snd (upload_route env flt req content sv)"
| "step (Reap flt now) sv = sv\<lparr>db := snd (cleanupExpiredSnaps flt now (db sv))\<rparr>"
| "step (Feed qf cf qpage qlimit) sv = sv"
| "step (GetSnap qf sid) sv = sv"
| "step (GetImage qf sid) sv = sv"
| "step (Signup hash new_id sf isf req) sv =
     sv\<lparr>db := snd (signup hash new_id sf isf req (db sv))\<rparr>"
| "step (Login compare sf req) sv = sv"

text \<open>A run of the server: the operations one after the other, the first one first.\<close>

fun run :: "operation list \<Rightarrow> server \<Rightarrow> server" where
  "run [] sv = sv"
| "run (op # ops) sv = run ops (step op sv)"

definition initial_server :: server where
  "initial_server = \<lparr>db = empty_store, files = Map.empty, outbox = []\<rparr>"

section \<open>Vocabulary of the properties\<close>

text \<open>A snap is expired at time \<open>now\<close> when its expires_at lies in the past.\<close>

definition expired :: "timestamp \<Rightarrow> snap \<Rightarrow> bool" where
  "expired now s = (case expires_at s of None \<Rightarrow> False | Some e \<Rightarrow> e < now)"

text \<open>
  Stores that differ from \<open>st\<close> only in the visibility flags, or only in the expiry
  times, of their snaps.
\<close>

definition with_visibility :: "(snap \<Rightarrow> bool option) \<Rightarrow> store \<Rightarrow> store" where
  "with_visibility v st = st\<lparr>snaps := map (\<lambda>s. s\<lparr>is_public := v s\<rparr>) (snaps st)\<rparr>"

definition with_expiry :: "(snap \<Rightarrow> timestamp option) \<Rightarrow> store \<Rightarrow> store" where
  "with_expiry e st = st\<lparr>snaps := map (\<lambda>s. s\<lparr>expires_at := e s\<rparr>) (snaps st)\<rparr>"

text \<open>
  A change of snap rows that keeps every column which some read path selects, joins on
  or sorts by.
\<close>

definition same_read_columns :: "(snap \<Rightarrow> snap) \<Rightarrow> bool" where
  "same_read_columns g =
     (\<forall>s. snap_id (g s) = snap_id s \<and> owner_id (g s) = owner_id s \<and> image_url (g s) = image_url s
        \<and> caption (g s) = caption s \<and> hashtags (g s) = hashtags s \<and> location (g s) = location s
        \<and> image_data (g s) = image_data s \<and> mime_type (g s) = mime_type s
        \<and> created_at (g s) = created_at s)"

text \<open>The items of a feed page when neither query fails.\<close>

definition feed_items :: "int option \<Rightarrow> int option \<Rightarrow> store \<Rightarrow> feed_row list" where
  "feed_items qpage qlimit st =
     (case get_feed False False qpage qlimit st of OK pg \<Rightarrow> fp_snaps pg | _ \<Rightarrow> [])"

section \<open>Example data\<close>

text \<open>Concrete rows and stores on which the theorems below are instantiated.\<close>

definition example_user :: "uuid \<Rightarrow> bool option \<Rightarrow> user" where
  "example_user i active =
     \<lparr>user_id = i, username = js_str ''ann'', email = js_str ''ann@example.com'',
      password_hash = js_str ''$2b$10$hash'', profile_picture_url = None, is_active = active\<rparr>"

definition example_snap :: "uuid \<Rightarrow> uuid \<Rightarrow> timestamp \<Rightarrow> snap" where
  "example_snap i owner t =
     \<lparr>snap_id = i, owner_id = owner, image_url = VirtualUrl t (js_str ''a.png''),
      caption = None, hashtags = Some [], location = Some [],
      image_data = [0x89, 0x50], mime_type = js_str ''image/png'',
      created_at = t, expires_at = Some (t + twelve_hours),
      view_count = Some 0, is_public = Some True\<rparr>"

definition example_store :: "snap list \<Rightarrow> (uuid \<times> js_string) list \<Rightarrow> store" where
  "example_store ss hs = \<lparr>users = [example_user 1 (Some True)], snaps = ss, snaps_hashtags = hs\<rparr>"

text \<open>
  An upload: the clocks of the application server and of the database differ by 5 ms,
  the server runs in UTC, the user with id 1 uploads the temporary file
  \<^verbatim>\<open>uploads/t.png\<close>. \<open>example_summary\<close> and \<open>example_uploaded\<close> are the response body
  and the stored row of that upload.
\<close>

definition example_env :: upload_env where
  "example_env = \<lparr>js_now = 1005, local_tza = (\<lambda>t isUTC. 0), date_now = 1006, txn_now = 1000, new_uuid = 7\<rparr>"

definition example_file :: upload_file where
  "example_file = \<lparr>file_path = js_str ''uploads/t.png'', originalname = js_str ''a.png'',
      mimetype = js_str ''image/png''\<rparr>"

definition example_request :: "js_string option \<Rightarrow> upload_request" where
  "example_request h =
     \<lparr>req_auth = Token 1, req_file = Some example_file, body_caption = Some (js_str ''hi''),
      body_hashtags = h, body_location = None, other_fields = []\<rparr>"

definition example_server :: "user list \<Rightarrow> server" where
  "example_server us =
     \<lparr>db = \<lparr>users = us, snaps = [], snaps_hashtags = []\<rparr>,
      files = [js_str ''uploads/t.png'' \<mapsto> [0x89, 0x50]],
      outbox = []\<rparr>"

definition example_summary :: snap_summary where
  "example_summary = \<lparr>sum_id = 7, sum_username = js_str ''ann'', sum_image_url = ImageUrl 7,
     sum_caption = Some (js_str ''hi''), sum_location = Some [], sum_created_at = 1000\<rparr>"

definition example_uploaded :: "js_string \<Rightarrow> snap" where
  "example_uploaded h =
     \<lparr>snap_id = 7, owner_id = 1, image_url = VirtualUrl 1006 (js_str ''a.png''),
      caption = Some (js_str ''hi''), hashtags = Some h, location = Some [],
      image_data = [0x89, 0x50], mime_type = js_str ''image/png'',
      created_at = 1000, expires_at = Some 43201005,
      view_count = Some 0, is_public = Some True\<rparr>"

text \<open>The feed row of an \<open>example_snap\<close> of user 1 without hashtag rows.\<close>

definition example_feed_row :: "uuid \<Rightarrow> timestamp \<Rightarrow> feed_row" where
  "example_feed_row i t =
     \<lparr>row_id = i, row_caption = None, row_hashtags = Some [], row_location = Some [],
      row_created_at = t, row_user_id = Some 1, row_username = Some (js_str ''ann''),
      row_profile_picture_url = None, row_hashtag_list = Some [], row_image_url = ImageUrl i\<rparr>"

text \<open>
  A run from the empty server: a signup, an upload by the new user, the three read
  routes and a reaper pass.
\<close>

definition example_run :: "operation list" where
  "example_run =
     [Signup (\<lambda>pw. js_str ''$2b$10$hash'') 1 False False
        \<lparr>acc_username = Some (js_str ''ann''), acc_password = Some (js_str ''secret''), acc_email = None\<rparr>,
      Upload example_env no_upload_faults (example_request None) [0x89, 0x50],
      Feed False False None None,
      GetSnap False 7,
      GetImage False 7,
      Reap no_reaper_faults 2000]"

section \<open>Evaluation on the example data\<close>

lemmas example_defs = example_user_def example_snap_def example_store_def example_feed_row_def example_env_def example_file_def example_request_def
  example_server_def example_summary_def example_uploaded_def

lemmas upload_defs = post_snaps_def authenticateToken_def post_snaps_handler_def upload_try_def
  insert_and_commit_def tags_abort_def new_snap_row_def raw_hashtags_def raw_location_def set_hours_plus_12_def
  twelve_hours_def no_upload_faults_def Let_def

lemma example_upload_result:
  "post_snaps example_env no_upload_faults (example_request None) (example_server [example_user 1 (Some False)])
   = (Created example_summary,
      \<lparr>db = \<lparr>users = [example_user 1 (Some False)], snaps = [example_uploaded []], snaps_hashtags = []\<rparr>,
       files = Map.empty, outbox = [example_summary]\<rparr>)"
  by (simp add: upload_defs example_defs js_str_def)

lemma example_upload_with_tags_result:
  "post_snaps example_env no_upload_faults (example_request (Some (js_str ''#foo, #bar  baz #foo'')))
     (example_server [example_user 1 (Some True)])
   = (Created example_summary,
      \<lparr>db = \<lparr>users = [example_user 1 (Some True)],
             snaps = [example_uploaded (js_str ''#foo, #bar  baz #foo'')],
             snaps_hashtags = [(7, js_str ''#foo''), (7, js_str ''#bar'')]\<rparr>,
       files = Map.empty, outbox = [example_summary]\<rparr>)"
  by (simp add: upload_defs example_defs js_str_def upload_tags_def upload_sep_def
        is_white_space_def starts_with_hash_def insert_hashtag_def)

lemmas read_defs = get_feed_def feed_query_def feed_row_of_def hashtag_agg_def process_row_def
  newest_first_def feed_page_number_def feed_limit_def ceil_div_def get_snap_def get_snap_image_def
  snap_detail_of_def Let_def

section \<open>Properties of the tokenizer and of the hashtag inserts\<close>

lemma js_split_leading_sep:
  "sep s \<Longrightarrow> js_split sep (s # rest) = [] # js_split sep (dropWhile sep rest)"
  by (induction rest arbitrary: s) auto

lemma js_split_not_Nil: "js_split sep xs \<noteq> []"
proof (cases xs)
  case Nil
  then show ?thesis by simp
next
  case (Cons c cs)
  show ?thesis
  proof (cases "sep c")
    case True
    then show ?thesis unfolding Cons using js_split_leading_sep[of sep c cs] by simp
  next
    case False
    then show ?thesis unfolding Cons by (cases "js_split sep cs") simp_all
  qed
qed

lemma js_split_leading_token:
  "\<not> sep c \<Longrightarrow> js_split sep (c # cs) = (c # hd (js_split sep cs)) # tl (js_split sep cs)"
  using js_split_not_Nil[of sep cs] by (cases "js_split sep cs") simp_all

lemma js_split_tokens_sep_free: "\<forall>t \<in> set (js_split sep xs). \<forall>c \<in> set t. \<not> sep c"
proof (induction xs rule: length_induct)
  case (1 xs)
  show ?case
  proof (cases xs)
    case Nil
    then show ?thesis by simp
  next
    case (Cons c cs)
    show ?thesis
    proof (cases "sep c")
      case True
      have "length (dropWhile sep cs) < length xs"
        using Cons length_dropWhile_le[of sep cs] by simp
      with 1 have "\<forall>t \<in> set (js_split sep (dropWhile sep cs)). \<forall>c \<in> set t. \<not> sep c"
        by blast
      then show ?thesis unfolding Cons using js_split_leading_sep[of sep c cs] True by simp
    next
      case False
      have ih: "\<forall>t \<in> set (js_split sep cs). \<forall>c \<in> set t. \<not> sep c"
      proof -
        have "length cs < length xs" using Cons by simp
        with 1 show ?thesis by blast
      qed
      have ne: "js_split sep cs \<noteq> []" by (rule js_split_not_Nil)
      have "\<forall>c \<in> set (hd (js_split sep cs)). \<not> sep c"
        using ih ne by (meson hd_in_set)
      moreover have "\<forall>t \<in> set (tl (js_split sep cs)). \<forall>c \<in> set t. \<not> sep c"
        using ih ne by (meson list.set_sel(2))
      ultimately show ?thesis
        unfolding Cons using js_split_leading_token[of sep c cs] False by auto
    qed
  qed
qed

lemma js_split_sep_free: "\<forall>c \<in> set t. \<not> sep c \<Longrightarrow> js_split sep t = [t]"
  by (induction t) auto

lemma js_split_token_then_sep:
  "\<forall>c \<in> set t. \<not> sep c \<Longrightarrow> sep s \<Longrightarrow>
     js_split sep (t @ s # rest) = t # js_split sep (dropWhile sep rest)"
proof (induction t)
  case Nil
  then show ?case using js_split_leading_sep[of sep s rest] by simp
next
  case (Cons c t)
  then show ?case by simp
qed

lemma insert_hashtag_set: "set (insert_hashtag sid t rows) = insert (sid, t) (set rows)"
  by (auto simp: insert_hashtag_def)

lemma insert_tags_set:
  "set (insert_tags (\<lambda>t. False) sid ts rows) = set rows \<union> (\<lambda>t. (sid, t)) ` set ts"
  by (induction ts arbitrary: rows) (auto simp: insert_hashtag_set)

lemma insert_tags_distinct:
  "distinct rows \<Longrightarrow> distinct (insert_tags fails sid ts rows)"
  by (induction ts arbitrary: rows) (auto simp: insert_hashtag_def)

lemma upload_tags_properties:
  "\<forall>t \<in> set (upload_tags h). starts_with_hash t \<and> (\<forall>c \<in> set t. \<not> is_white_space c \<and> c \<noteq> 0x2C)"
  using js_split_tokens_sep_free[of upload_sep h]
  by (auto simp: upload_tags_def upload_sep_def)

lemma upload_tags_sep_free:
  "\<forall>c \<in> set t. \<not> upload_sep c \<Longrightarrow> upload_tags t = (if starts_with_hash t then [t] else [])"
  by (simp add: upload_tags_def js_split_sep_free)

lemma upload_tags_token_then_sep:
  "\<forall>c \<in> set t. \<not> upload_sep c \<Longrightarrow> upload_sep s \<Longrightarrow>
     upload_tags (t @ s # rest) =
       (if starts_with_hash t then [t] else []) @ upload_tags (dropWhile upload_sep rest)"
  by (simp add: upload_tags_def js_split_token_then_sep)

lemma upload_tags_example:
  "upload_tags (js_str ''#foo, #bar  baz'') = [js_str ''#foo'', js_str ''#bar'']"
  by (simp add: upload_tags_def js_str_def upload_sep_def is_white_space_def starts_with_hash_def)

section \<open>Case analysis of the upload\<close>

lemma insert_and_commit_Inr:
  assumes "insert_and_commit env flt req f uid name imageData sv = Inr (resp, sv')"
  shows "\<not> insert_snap_fails flt" "\<not> commit_fails flt"
    and "new_uuid env \<notin> snap_id ` set (snaps (db sv))"
    and "resp = Created \<lparr>sum_id = new_uuid env, sum_username = name,
                          sum_image_url = ImageUrl (new_uuid env),
                          sum_caption = body_caption req,
                          sum_location = Some (raw_location req),
                          sum_created_at = txn_now env\<rparr>"
    and "\<not> tags_abort flt req \<Longrightarrow>
           snaps (db sv') = snaps (db sv) @ [new_snap_row env req f uid imageData]"
    and "users (db sv') = users (db sv)"
    and "\<not> tags_abort flt req \<Longrightarrow> snaps_hashtags (db sv') =
           (if raw_hashtags req \<noteq> []
            then insert_tags (insert_tag_fails flt) (new_uuid env)
                   (upload_tags (raw_hashtags req)) (snaps_hashtags (db sv))
            else snaps_hashtags (db sv))"
    and "files sv' = (files sv)(file_path f := None)"
    and "outbox sv' = outbox sv @ [\<lparr>sum_id = new_uuid env, sum_username = name,
                          sum_image_url = ImageUrl (new_uuid env),
                          sum_caption = body_caption req,
                          sum_location = Some (raw_location req),
                          sum_created_at = txn_now env\<rparr>]"
    and "tags_abort flt req \<Longrightarrow> db sv' = db sv"
  using assms
  by (auto simp: insert_and_commit_def Let_def new_snap_row_def split: if_splits)

lemma upload_try_Inr:
  assumes "upload_try env flt req f sv = Inr (resp, sv')"
  shows "(resp = Unauthorized \<and> sv' = sv \<and> req_auth req = NoToken)
       \<or> (resp = NotFound \<and> sv' = sv \<and>
            (\<exists>uid. req_auth req = Token uid \<and> find (\<lambda>u. user_id u = uid) (users (db sv)) = None))
       \<or> (\<exists>uid u imageData. req_auth req = Token uid
             \<and> find (\<lambda>u. user_id u = uid) (users (db sv)) = Some u
             \<and> files sv (file_path f) = Some imageData
             \<and> insert_and_commit env flt req f uid (username u) imageData sv = Inr (resp, sv'))"
  using assms
  by (auto simp: upload_try_def split: if_splits credential.splits option.splits)

lemma post_snaps_cases:
  assumes "post_snaps env flt req sv = (resp, sv')"
  obtains
    (rejected) "resp = BadRequest \<or> resp = Unauthorized \<or> resp = Forbidden \<or> resp = NotFound"
               "sv' = sv"
  | (failed) f where "resp = ServerError" "req_file req = Some f"
               "sv' = sv\<lparr>files := (if file_path f \<noteq> [] then (files sv)(file_path f := None)
                                    else files sv)\<rparr>"
  | (created) uid u f imageData where "req_auth req = Token uid" "req_file req = Some f"
               "find (\<lambda>u. user_id u = uid) (users (db sv)) = Some u"
               "files sv (file_path f) = Some imageData"
               "insert_and_commit env flt req f uid (username u) imageData sv = Inr (resp, sv')"
proof (cases "req_auth req")
  case NoToken
  then show ?thesis using assms rejected by (auto simp: post_snaps_def authenticateToken_def)
next
  case BadToken
  then show ?thesis using assms rejected by (auto simp: post_snaps_def authenticateToken_def)
next
  case (Token uid)
  then have h: "post_snaps_handler env flt req sv = (resp, sv')"
    using assms by (simp add: post_snaps_def authenticateToken_def)
  show ?thesis
  proof (cases "req_file req")
    case None
    then show ?thesis using h rejected by (auto simp: post_snaps_handler_def)
  next
    case (Some f)
    show ?thesis
    proof (cases "upload_try env flt req f sv")
      case (Inl e)
      then show ?thesis using h Some failed by (auto simp: post_snaps_handler_def)
    next
      case (Inr r)
      then have r: "r = (resp, sv')" using h Some by (simp add: post_snaps_handler_def)
      from upload_try_Inr[OF Inr[unfolded r]] show ?thesis
        using Token Some rejected created by auto
    qed
  qed
qed

lemma created_hashtag_rows:
  assumes "post_snaps env flt req sv = (Created sm, sv')" and "\<forall>t. \<not> insert_tag_fails flt t"
  shows "set (snaps_hashtags (db sv')) =
           set (snaps_hashtags (db sv)) \<union> (\<lambda>t. (new_uuid env, t)) ` set (upload_tags (raw_hashtags req))"
using assms(1)
proof (cases rule: post_snaps_cases)
  case rejected
  then show ?thesis by auto
next
  case (failed f)
  then show ?thesis by simp
next
  case (created uid u f imageData)
  have nf: "insert_tag_fails flt = (\<lambda>t. False)" using assms(2) by (intro ext) simp
  have na: "\<not> tags_abort flt req" using assms(2) by (simp add: tags_abort_def list_ex_iff)
  have e: "upload_tags [] = []" by (simp add: upload_tags_def starts_with_hash_def)
  show ?thesis
    using insert_and_commit_Inr(7)[OF created(5) na] nf e by (auto simp: insert_tags_set)
qed

section \<open>Hashtag tokenization at upload\<close>

text \<open>
  Claim C8. The upload tokenizer cuts the raw string at runs of whitespace and commas and
  keeps the pieces that begin with \<open>#\<close>: every tag begins with \<open>#\<close> and contains neither
  whitespace nor a comma; a string without separators is one piece; a piece followed by
  a separator is cut off there and the whole run of separators after it is skipped.
  Inserting a pair that is already present changes nothing and raises nothing, the
  insert loop keeps the rows distinct, and without insert faults it adds exactly the
  pairs of the new snap with its tags. A committed upload therefore stores exactly the
  tag set of its raw string. The input \<open>#foo, #bar  baz\<close> yields \<open>#foo\<close> and \<open>#bar\<close>.
\<close>

theorem upload_hashtag_tokenization:
  "upload_tags (js_str ''#foo, #bar  baz'') = [js_str ''#foo'', js_str ''#bar'']
   \<and> (\<forall>t \<in> set (upload_tags h). starts_with_hash t \<and> (\<forall>c \<in> set t. \<not> is_white_space c \<and> c \<noteq> 0x2C))
   \<and> ((\<forall>c \<in> set t. \<not> upload_sep c) \<longrightarrow>
          upload_tags t = (if starts_with_hash t then [t] else []))
   \<and> ((\<forall>c \<in> set t. \<not> upload_sep c) \<and> upload_sep s \<longrightarrow>
          upload_tags (t @ s # rest) =
            (if starts_with_hash t then [t] else []) @ upload_tags (dropWhile upload_sep rest))
   \<and> ((sid, tag) \<in> set rows \<longrightarrow> insert_hashtag sid tag rows = rows)
   \<and> (distinct rows \<longrightarrow> distinct (insert_tags fails sid ts rows))
   \<and> set (insert_tags (\<lambda>t. False) sid ts rows) = set rows \<union> (\<lambda>t. (sid, t)) ` set ts
   \<and> (post_snaps env flt req sv = (Created sm, sv') \<and> (\<forall>t. \<not> insert_tag_fails flt t) \<longrightarrow>
          set (snaps_hashtags (db sv')) =
            set (snaps_hashtags (db sv)) \<union>
            (\<lambda>t. (new_uuid env, t)) ` set (upload_tags (raw_hashtags req)))"
proof -
  have c1: "upload_tags (js_str ''#foo, #bar  baz'') = [js_str ''#foo'', js_str ''#bar'']"
    by (rule upload_tags_example)
  have c2: "\<forall>t \<in> set (upload_tags h). starts_with_hash t \<and> (\<forall>c \<in> set t. \<not> is_white_space c \<and> c \<noteq> 0x2C)"
    by (rule upload_tags_properties)
  have c3: "(\<forall>c \<in> set t. \<not> upload_sep c) \<longrightarrow>
          upload_tags t = (if starts_with_hash t then [t] else [])"
    using upload_tags_sep_free[of t] by blast
  have c4: "(\<forall>c \<in> set t. \<not> upload_sep c) \<and> upload_sep s \<longrightarrow>
          upload_tags (t @ s # rest) =
            (if starts_with_hash t then [t] else []) @ upload_tags (dropWhile upload_sep rest)"
    using upload_tags_token_then_sep[of t s rest] by blast
  have c5: "(sid, tag) \<in> set rows \<longrightarrow> insert_hashtag sid tag rows = rows"
    by (simp add: insert_hashtag_def)
  have c6: "distinct rows \<longrightarrow> distinct (insert_tags fails sid ts rows)"
    using insert_tags_distinct[of rows fails sid ts] by blast
  have c7: "set (insert_tags (\<lambda>t. False) sid ts rows) = set rows \<union> (\<lambda>t. (sid, t)) ` set ts"
    by (rule insert_tags_set)
  have c8: "post_snaps env flt req sv = (Created sm, sv') \<and> (\<forall>t. \<not> insert_tag_fails flt t) \<longrightarrow>
          set (snaps_hashtags (db sv')) =
            set (snaps_hashtags (db sv)) \<union>
            (\<lambda>t. (new_uuid env, t)) ` set (upload_tags (raw_hashtags req))"
    using created_hashtag_rows[of env flt req sv sm sv'] by blast
  from c1 c2 c3 c4 c5 c6 c7 c8 show ?thesis by blast
qed

theorem upload_hashtag_tokenization_witness:
  "set (upload_tags (js_str ''#foo, #bar  baz'')) = {js_str ''#foo'', js_str ''#bar''}
   \<and> upload_tags (js_str ''#foo'') = [js_str ''#foo'']
   \<and> upload_tags (js_str ''#foo'' @ 0x2C # js_str '' #bar  baz'')
       = [js_str ''#foo''] @ upload_tags (js_str ''#bar  baz'')
   \<and> insert_hashtag 7 (js_str ''#foo'') [(7, js_str ''#foo'')] = [(7, js_str ''#foo'')]
   \<and> distinct (insert_tags (\<lambda>t. False) 7 [js_str ''#foo'', js_str ''#bar''] [(7, js_str ''#foo'')])
   \<and> set (snaps_hashtags (db (snd (post_snaps example_env no_upload_faults
               (example_request (Some (js_str ''#foo, #bar  baz #foo'')))
               (example_server [example_user 1 (Some True)])))))
       = {(7, js_str ''#foo''), (7, js_str ''#bar'')}"
proof -
  let ?R = "example_request (Some (js_str ''#foo, #bar  baz #foo''))"
  let ?S = "example_server [example_user 1 (Some True)]"
  have "fst (post_snaps example_env no_upload_faults ?R ?S) = Created example_summary"
    by (simp add: upload_defs example_defs js_str_def upload_tags_def upload_sep_def
        is_white_space_def starts_with_hash_def insert_hashtag_def)
  then have h: "post_snaps example_env no_upload_faults ?R ?S
      = (Created example_summary, snd (post_snaps example_env no_upload_faults ?R ?S))"
    by (metis prod.collapse)
  have nf: "\<forall>t. \<not> insert_tag_fails no_upload_faults t" by (simp add: no_upload_faults_def)
  have t: "\<forall>c \<in> set (js_str ''#foo''). \<not> upload_sep c"
    by (simp add: js_str_def upload_sep_def is_white_space_def)
  have s: "upload_sep 0x2C" by (simp add: upload_sep_def)
  have hs: "starts_with_hash (js_str ''#foo'')" by (simp add: starts_with_hash_def js_str_def)
  have dw: "dropWhile upload_sep (js_str '' #bar  baz'') = js_str ''#bar  baz''"
    by (simp add: js_str_def upload_sep_def is_white_space_def)
  have m: "(7, js_str ''#foo'') \<in> set [(7::nat, js_str ''#foo'')]"
    "distinct [(7::nat, js_str ''#foo'')]" by simp_all
  have old: "set (snaps_hashtags (db ?S)) = {}" "new_uuid example_env = 7"
    by (simp_all add: example_server_def example_env_def)
  have raw: "upload_tags (raw_hashtags ?R) = [js_str ''#foo'', js_str ''#bar'', js_str ''#foo'']"
    by (simp add: raw_hashtags_def example_request_def upload_tags_def js_str_def upload_sep_def
        is_white_space_def starts_with_hash_def)
  note inst = upload_hashtag_tokenization[where h = "js_str ''#foo, #bar  baz''"
      and t = "js_str ''#foo''" and s = "0x2C" and rest = "js_str '' #bar  baz''"
      and sid = "7" and tag = "js_str ''#foo''" and rows = "[(7, js_str ''#foo'')]"
      and fails = "\<lambda>t. False" and ts = "[js_str ''#foo'', js_str ''#bar'']"
      and env = example_env and flt = no_upload_faults and req = ?R and sv = ?S
      and sm = example_summary
      and sv' = "snd (post_snaps example_env no_upload_faults ?R ?S)"]
  have a1: "set (upload_tags (js_str ''#foo, #bar  baz'')) = {js_str ''#foo'', js_str ''#bar''}"
    using inst by simp
  have a2: "upload_tags (js_str ''#foo'') = [js_str ''#foo'']"
    using inst t hs by simp
  have a3: "upload_tags (js_str ''#foo'' @ 0x2C # js_str '' #bar  baz'')
       = [js_str ''#foo''] @ upload_tags (js_str ''#bar  baz'')"
    using inst t s hs dw by simp
  have a4: "insert_hashtag 7 (js_str ''#foo'') [(7, js_str ''#foo'')] = [(7, js_str ''#foo'')]"
    using inst m by blast
  have a5: "distinct (insert_tags (\<lambda>t. False) 7 [js_str ''#foo'', js_str ''#bar''] [(7, js_str ''#foo'')])"
    using inst m by blast
  have "set (snaps_hashtags (db (snd (post_snaps example_env no_upload_faults ?R ?S))))
       = set (snaps_hashtags (db ?S)) \<union>
            (\<lambda>t. (new_uuid example_env, t)) ` set (upload_tags (raw_hashtags ?R))"
    using inst h nf by blast
  then have a6: "set (snaps_hashtags (db (snd (post_snaps example_env no_upload_faults ?R ?S))))
       = {(7, js_str ''#foo''), (7, js_str ''#bar'')}"
    unfolding old raw by auto
  from a1 a2 a3 a4 a5 a6 show ?thesis by blast
qed

section \<open>The fallback tokenizer of the feed\<close>

text \<open>
  Claim C4. On the raw string \<open>#foo,#bar\<close> the upload tokenizer yields the two tags
  \<open>#foo\<close> and \<open>#bar\<close>, the fallback tokenizer of the feed the single tag \<open>#foo,#bar\<close>:
  the fallback splits on whitespace only. For a snap with that raw string and without
  association rows (the aggregated list of its row is NULL) the feed shows the single
  tag \<open>#foo,#bar\<close>.
\<close>

theorem fallback_tokenizer_differs:
  "upload_tags (js_str ''#foo,#bar'') = [js_str ''#foo'', js_str ''#bar'']
   \<and> fallback_tags (js_str ''#foo,#bar'') = [js_str ''#foo,#bar'']
   \<and> map row_hashtag_list (feed_items None None
         (example_store [(example_snap 7 1 0)\<lparr>hashtags := Some (js_str ''#foo,#bar'')\<rparr>] []))
       = [Some [js_str ''#foo,#bar'']]"
  by (simp add: upload_tags_def fallback_tags_def js_str_def upload_sep_def is_white_space_def
      starts_with_hash_def feed_items_def read_defs example_defs)

section \<open>Atomicity of the upload\<close>

lemma server_error_rolls_back:
  assumes "post_snaps env flt req sv = (ServerError, sv')"
  shows "db sv' = db sv \<and> outbox sv' = outbox sv \<and>
     (\<forall>f. req_file req = Some f \<and> file_path f \<noteq> [] \<longrightarrow> files sv' (file_path f) = None)"
  using assms
proof (cases rule: post_snaps_cases)
  case rejected
  then show ?thesis by simp
next
  case (failed f)
  then show ?thesis by simp
next
  case (created uid u f imageData)
  then show ?thesis using insert_and_commit_Inr(4)[OF created(5)] by simp
qed

lemma commit_failure_is_server_error:
  assumes "req_auth req = Token uid" "req_file req = Some f"
    and "\<not> begin_fails flt" "\<not> select_user_fails flt"
    and "find (\<lambda>u. user_id u = uid) (users (db sv)) = Some u"
    and "files sv (file_path f) = Some imageData"
    and "\<not> insert_snap_fails flt" "new_uuid env \<notin> snap_id ` set (snaps (db sv))"
    and "commit_fails flt"
  shows "fst (post_snaps env flt req sv) = ServerError"
  using assms
  by (simp add: post_snaps_def authenticateToken_def post_snaps_handler_def upload_try_def
      insert_and_commit_def Let_def)

text \<open>
  Claim C5. Whenever the upload answers with a server fault, the transaction has been
  rolled back: the snaps, the hashtag rows and the users are as before, nothing has
  been broadcast, every feed request gives the same answer as before, and the temporary
  file is gone. When the snap insert has succeeded and COMMIT fails (failed hashtag
  inserts are tolerated by the loop), the answer is a server fault.
\<close>

theorem failed_upload_rolled_back:
  assumes "post_snaps env flt req sv = (resp, sv')"
  shows "(resp = ServerError \<longrightarrow>
            snaps (db sv') = snaps (db sv) \<and> snaps_hashtags (db sv') = snaps_hashtags (db sv)
          \<and> users (db sv') = users (db sv) \<and> outbox sv' = outbox sv
          \<and> (\<forall>qf cf p l. get_feed qf cf p l (db sv') = get_feed qf cf p l (db sv))
          \<and> (\<forall>f. req_file req = Some f \<and> file_path f \<noteq> [] \<longrightarrow> files sv' (file_path f) = None))
       \<and> ((\<exists>uid f u imageData. req_auth req = Token uid \<and> req_file req = Some f
              \<and> \<not> begin_fails flt \<and> \<not> select_user_fails flt
              \<and> find (\<lambda>u. user_id u = uid) (users (db sv)) = Some u
              \<and> files sv (file_path f) = Some imageData
              \<and> \<not> insert_snap_fails flt \<and> new_uuid env \<notin> snap_id ` set (snaps (db sv))
              \<and> commit_fails flt)
            \<longrightarrow> resp = ServerError)"
proof (intro conjI impI)
  assume e: "resp = ServerError"
  note r = server_error_rolls_back[OF assms[unfolded e]]
  show "snaps (db sv') = snaps (db sv)" "snaps_hashtags (db sv') = snaps_hashtags (db sv)"
       "users (db sv') = users (db sv)" "outbox sv' = outbox sv"
    using r by simp_all
  show "\<forall>qf cf p l. get_feed qf cf p l (db sv') = get_feed qf cf p l (db sv)"
    using r by simp
  show "\<forall>f. req_file req = Some f \<and> file_path f \<noteq> [] \<longrightarrow> files sv' (file_path f) = None"
    using r by blast
next
  assume "\<exists>uid f u imageData. req_auth req = Token uid \<and> req_file req = Some f
              \<and> \<not> begin_fails flt \<and> \<not> select_user_fails flt
              \<and> find (\<lambda>u. user_id u = uid) (users (db sv)) = Some u
              \<and> files sv (file_path f) = Some imageData
              \<and> \<not> insert_snap_fails flt \<and> new_uuid env \<notin> snap_id ` set (snaps (db sv))
              \<and> commit_fails flt"
  then obtain uid f u imageData where h: "req_auth req = Token uid" "req_file req = Some f"
     "\<not> begin_fails flt" "\<not> select_user_fails flt"
     "find (\<lambda>u. user_id u = uid) (users (db sv)) = Some u"
     "files sv (file_path f) = Some imageData"
     "\<not> insert_snap_fails flt" "new_uuid env \<notin> snap_id ` set (snaps (db sv))"
     "commit_fails flt" by blast
  from commit_failure_is_server_error[OF h] assms show "resp = ServerError" by simp
qed

theorem failed_upload_rolled_back_witness:
  "fst (post_snaps example_env (no_upload_faults\<lparr>commit_fails := True\<rparr>)
       (example_request (Some (js_str ''#foo''))) (example_server [example_user 1 (Some True)]))
     = ServerError
   \<and> snaps (db (snd (post_snaps example_env (no_upload_faults\<lparr>commit_fails := True\<rparr>)
       (example_request (Some (js_str ''#foo''))) (example_server [example_user 1 (Some True)])))) = []
   \<and> snaps_hashtags (db (snd (post_snaps example_env (no_upload_faults\<lparr>commit_fails := True\<rparr>)
       (example_request (Some (js_str ''#foo''))) (example_server [example_user 1 (Some True)])))) = []
   \<and> files (snd (post_snaps example_env (no_upload_faults\<lparr>commit_fails := True\<rparr>)
       (example_request (Some (js_str ''#foo''))) (example_server [example_user 1 (Some True)])))
         (js_str ''uploads/t.png'') = None"
proof -
  let ?F = "no_upload_faults\<lparr>commit_fails := True\<rparr>"
  let ?R = "example_request (Some (js_str ''#foo''))"
  let ?S = "example_server [example_user 1 (Some True)]"
  have h: "post_snaps example_env ?F ?R ?S
      = (fst (post_snaps example_env ?F ?R ?S), snd (post_snaps example_env ?F ?R ?S))"
    by simp
  have pre: "\<exists>uid f u imageData. req_auth ?R = Token uid \<and> req_file ?R = Some f
              \<and> \<not> begin_fails ?F \<and> \<not> select_user_fails ?F
              \<and> find (\<lambda>u. user_id u = uid) (users (db ?S)) = Some u
              \<and> files ?S (file_path f) = Some imageData
              \<and> \<not> insert_snap_fails ?F \<and> new_uuid example_env \<notin> snap_id ` set (snaps (db ?S))
              \<and> commit_fails ?F"
    by (simp add: example_defs no_upload_faults_def js_str_def)
  have f: "req_file ?R = Some example_file \<and> file_path example_file \<noteq> []"
    "file_path example_file = js_str ''uploads/t.png''"
    by (simp_all add: example_request_def example_file_def js_str_def)
  have s: "snaps (db ?S) = []" "snaps_hashtags (db ?S) = []"
    by (simp_all add: example_server_def)
  note t = failed_upload_rolled_back[OF h]
  from t pre have e: "fst (post_snaps example_env ?F ?R ?S) = ServerError" by blast
  from t e f s show ?thesis by metis
qed

section \<open>The owner lookup of the upload\<close>

lemma find_user_None: "find (\<lambda>u. user_id u = uid) us = None \<longleftrightarrow> uid \<notin> user_id ` set us"
  by (auto simp: find_None_iff)

text \<open>
  Claim C7, as amended. An upload whose token names a user id without a row in
  \<^verbatim>\<open>users\<close> is answered with 404 and changes nothing: no table, no file, no broadcast.
  An upload whose token names an existing row is never answered with 404; the active
  flag of the row is not consulted.
\<close>

theorem unknown_owner_rejected:
  assumes "req_auth req = Token uid" and "req_file req = Some f"
    and "\<not> begin_fails flt" and "\<not> select_user_fails flt"
  shows "(uid \<notin> user_id ` set (users (db sv)) \<longrightarrow> post_snaps env flt req sv = (NotFound, sv))
       \<and> (uid \<in> user_id ` set (users (db sv)) \<longrightarrow> fst (post_snaps env flt req sv) \<noteq> NotFound)"
proof (intro conjI impI)
  assume "uid \<notin> user_id ` set (users (db sv))"
  then have "find (\<lambda>u. user_id u = uid) (users (db sv)) = None"
    by (simp add: find_user_None)
  then show "post_snaps env flt req sv = (NotFound, sv)"
    using assms
    by (simp add: post_snaps_def authenticateToken_def post_snaps_handler_def upload_try_def)
next
  assume "uid \<in> user_id ` set (users (db sv))"
  then obtain u where u: "find (\<lambda>u. user_id u = uid) (users (db sv)) = Some u"
    using find_user_None[of uid "users (db sv)"] by (cases "find (\<lambda>u. user_id u = uid) (users (db sv))") auto
  show "fst (post_snaps env flt req sv) \<noteq> NotFound"
    using assms u
    by (auto simp: post_snaps_def authenticateToken_def post_snaps_handler_def upload_try_def
        insert_and_commit_def Let_def split: option.splits)
qed

theorem unknown_owner_rejected_witness:
  "post_snaps example_env no_upload_faults (example_request None) (example_server [])
     = (NotFound, example_server [])
   \<and> fst (post_snaps example_env no_upload_faults (example_request None)
            (example_server [example_user 1 (Some False)])) \<noteq> NotFound"
proof -
  have a: "req_auth (example_request None) = Token 1"
    and b: "req_file (example_request None) = Some example_file"
    and c: "\<not> begin_fails no_upload_faults" and d: "\<not> select_user_fails no_upload_faults"
    by (simp_all add: example_request_def no_upload_faults_def)
  from unknown_owner_rejected[OF a b c d, of "example_server []" example_env]
       unknown_owner_rejected[OF a b c d, of "example_server [example_user 1 (Some False)]" example_env]
  show ?thesis by (simp add: example_server_def example_user_def)
qed

text \<open>
  Claim C7 as stated fails: the user with id 1 exists with its active flag cleared, and
  the upload is accepted (201) and stored.
\<close>

theorem inactive_owner_accepted_counterexample:
  "is_active (example_user 1 (Some False)) = Some False
   \<and> post_snaps example_env no_upload_faults (example_request None)
        (example_server [example_user 1 (Some False)])
     = (Created example_summary,
        \<lparr>db = \<lparr>users = [example_user 1 (Some False)], snaps = [example_uploaded []],
               snaps_hashtags = []\<rparr>,
         files = Map.empty, outbox = [example_summary]\<rparr>)"
  by (simp add: upload_defs example_defs js_str_def)

section \<open>The expiry time of an uploaded snap\<close>

lemma created_snap_row:
  assumes "post_snaps env flt req sv = (Created s, sv')" and "\<not> tags_abort flt req"
  shows "\<exists>f uid imageData. snaps (db sv') = snaps (db sv) @ [new_snap_row env req f uid imageData]"
  using assms(1)
proof (cases rule: post_snaps_cases)
  case rejected
  then show ?thesis by simp
next
  case (failed f)
  then show ?thesis by simp
next
  case (created uid u f imageData)
  then show ?thesis using insert_and_commit_Inr(5)[OF created(5) assms(2)] by blast
qed

lemma created_aborted_stores_nothing:
  assumes "post_snaps env flt req sv = (Created s, sv')" and "tags_abort flt req"
  shows "db sv' = db sv"
  using assms(1)
proof (cases rule: post_snaps_cases)
  case rejected
  then show ?thesis by simp
next
  case (failed f)
  then show ?thesis by simp
next
  case (created uid u f imageData)
  then show ?thesis using insert_and_commit_Inr(10)[OF created(5) assms(2)] by simp
qed

lemma set_hours_constant_offset:
  "\<forall>t isUTC. tza t isUTC = z \<Longrightarrow> set_hours_plus_12 tza t = t + twelve_hours"
  by (simp add: set_hours_plus_12_def Let_def)

text \<open>
  Claim C2, as amended. A successful upload none of whose hashtag inserts fails appends
  one row. Its created_at is the database's transaction timestamp; its expires_at is
  the application server's clock reading with the local hour field advanced by 12,
  which is that reading plus twelve hours when the server's UTC offset is constant, and
  hence created_at plus twelve hours when in addition the two clock readings coincide.
  No part of the request enters the value: two such uploads under the same clocks get
  the same expires_at, whatever the client sent. An upload that is answered with 201
  although one of its hashtag inserts failed creates no snap: the transaction was
  aborted and COMMIT has rolled it back.
\<close>

theorem expiry_computed_server_side:
  assumes "post_snaps env flt req sv = (Created s, sv')"
  shows "(tags_abort flt req \<longrightarrow> db sv' = db sv)
       \<and> (\<not> tags_abort flt req \<longrightarrow>
            snaps (db sv') = snaps (db sv) @ [last (snaps (db sv'))]
          \<and> snap_id (last (snaps (db sv'))) = new_uuid env
          \<and> created_at (last (snaps (db sv'))) = txn_now env
          \<and> expires_at (last (snaps (db sv'))) = Some (set_hours_plus_12 (local_tza env) (js_now env))
          \<and> ((\<forall>t isUTC. local_tza env t isUTC = z) \<longrightarrow>
                expires_at (last (snaps (db sv'))) = Some (js_now env + twelve_hours))
          \<and> ((\<forall>t isUTC. local_tza env t isUTC = z) \<and> js_now env = txn_now env \<longrightarrow>
                expires_at (last (snaps (db sv'))) = Some (created_at (last (snaps (db sv'))) + twelve_hours))
          \<and> (\<forall>flt2 req2 sv2 s2 sv2'.
                post_snaps env flt2 req2 sv2 = (Created s2, sv2') \<and> \<not> tags_abort flt2 req2 \<longrightarrow>
                expires_at (last (snaps (db sv2'))) = expires_at (last (snaps (db sv')))))"
proof (intro conjI impI)
  assume "tags_abort flt req"
  then show "db sv' = db sv" by (rule created_aborted_stores_nothing[OF assms])
next
  assume na: "\<not> tags_abort flt req"
  obtain f uid imageData where
    r: "snaps (db sv') = snaps (db sv) @ [new_snap_row env req f uid imageData]"
    using created_snap_row[OF assms na] by blast
  have l: "last (snaps (db sv')) = new_snap_row env req f uid imageData" using r by simp
  show "snaps (db sv') = snaps (db sv) @ [last (snaps (db sv'))]" using r by simp
  show "snap_id (last (snaps (db sv'))) = new_uuid env" unfolding l by (simp add: new_snap_row_def)
  show "created_at (last (snaps (db sv'))) = txn_now env" unfolding l by (simp add: new_snap_row_def)
  show "expires_at (last (snaps (db sv'))) = Some (set_hours_plus_12 (local_tza env) (js_now env))"
    unfolding l by (simp add: new_snap_row_def)
  show "expires_at (last (snaps (db sv'))) = Some (js_now env + twelve_hours)"
    if "\<forall>t isUTC. local_tza env t isUTC = z"
    unfolding l using that by (simp add: new_snap_row_def set_hours_constant_offset)
  show "expires_at (last (snaps (db sv'))) = Some (created_at (last (snaps (db sv'))) + twelve_hours)"
    if "(\<forall>t isUTC. local_tza env t isUTC = z) \<and> js_now env = txn_now env"
    unfolding l using that by (simp add: new_snap_row_def set_hours_constant_offset)
  show "\<forall>flt2 req2 sv2 s2 sv2'.
          post_snaps env flt2 req2 sv2 = (Created s2, sv2') \<and> \<not> tags_abort flt2 req2 \<longrightarrow>
          expires_at (last (snaps (db sv2'))) = expires_at (last (snaps (db sv')))"
  proof (intro allI impI)
    fix flt2 req2 sv2 s2 sv2'
    assume p: "post_snaps env flt2 req2 sv2 = (Created s2, sv2') \<and> \<not> tags_abort flt2 req2"
    obtain f2 uid2 imageData2 where
      "snaps (db sv2') = snaps (db sv2) @ [new_snap_row env req2 f2 uid2 imageData2]"
      using created_snap_row[of env flt2 req2 sv2 s2 sv2'] p by blast
    then show "expires_at (last (snaps (db sv2'))) = expires_at (last (snaps (db sv')))"
      using l by (simp add: new_snap_row_def)
  qed
qed

theorem expiry_computed_server_side_witness:
  "expires_at (last (snaps (db (snd (post_snaps example_env no_upload_faults (example_request None)
      (example_server [example_user 1 (Some True)])))))) = Some (1005 + twelve_hours)
   \<and> expires_at (last (snaps (db (snd (post_snaps (example_env\<lparr>js_now := 1000\<rparr>) no_upload_faults
      (example_request None) (example_server [example_user 1 (Some True)]))))))
     = Some (created_at (last (snaps (db (snd (post_snaps (example_env\<lparr>js_now := 1000\<rparr>)
          no_upload_faults (example_request None) (example_server [example_user 1 (Some True)])))))) + twelve_hours)
   \<and> expires_at (last (snaps (db (snd (post_snaps example_env no_upload_faults
      ((example_request (Some (js_str ''#x'')))\<lparr>other_fields := [(js_str ''expires_at'', js_str ''0'')]\<rparr>)
      (example_server [example_user 1 (Some True)]))))))
     = expires_at (last (snaps (db (snd (post_snaps example_env no_upload_faults (example_request None)
      (example_server [example_user 1 (Some True)]))))))
   \<and> fst (post_snaps example_env (no_upload_faults\<lparr>insert_tag_fails := \<lambda>t. True\<rparr>)
        (example_request (Some (js_str ''#x''))) (example_server [example_user 1 (Some True)]))
     = Created example_summary
   \<and> snaps (db (snd (post_snaps example_env (no_upload_faults\<lparr>insert_tag_fails := \<lambda>t. True\<rparr>)
        (example_request (Some (js_str ''#x''))) (example_server [example_user 1 (Some True)])))) = []"
proof -
  let ?S = "example_server [example_user 1 (Some True)]"
  let ?E2 = "example_env\<lparr>js_now := 1000\<rparr>"
  let ?R3 = "(example_request (Some (js_str ''#x'')))\<lparr>other_fields := [(js_str ''expires_at'', js_str ''0'')]\<rparr>"
  let ?F4 = "no_upload_faults\<lparr>insert_tag_fails := \<lambda>t. True\<rparr>"
  let ?R4 = "example_request (Some (js_str ''#x''))"
  have "fst (post_snaps example_env no_upload_faults (example_request None) ?S) = Created example_summary"
    by (simp add: upload_defs example_defs js_str_def)
  then have h1: "post_snaps example_env no_upload_faults (example_request None) ?S
      = (Created example_summary, snd (post_snaps example_env no_upload_faults (example_request None) ?S))"
    by (metis prod.collapse)
  have "fst (post_snaps ?E2 no_upload_faults (example_request None) ?S) = Created example_summary"
    by (simp add: upload_defs example_defs js_str_def)
  then have h2: "post_snaps ?E2 no_upload_faults (example_request None) ?S
      = (Created example_summary, snd (post_snaps ?E2 no_upload_faults (example_request None) ?S))"
    by (metis prod.collapse)
  have "fst (post_snaps example_env no_upload_faults ?R3 ?S) = Created example_summary"
    by (simp add: upload_defs example_defs js_str_def upload_tags_def upload_sep_def
        is_white_space_def starts_with_hash_def insert_hashtag_def)
  then have h3: "post_snaps example_env no_upload_faults ?R3 ?S
      = (Created example_summary, snd (post_snaps example_env no_upload_faults ?R3 ?S))"
    by (metis prod.collapse)
  have f4: "fst (post_snaps example_env ?F4 ?R4 ?S) = Created example_summary"
    by (simp add: upload_defs example_defs js_str_def upload_tags_def upload_sep_def
        is_white_space_def starts_with_hash_def insert_hashtag_def)
  then have h4: "post_snaps example_env ?F4 ?R4 ?S
      = (Created example_summary, snd (post_snaps example_env ?F4 ?R4 ?S))"
    by (metis prod.collapse)
  have na: "\<not> tags_abort no_upload_faults (example_request None)"
    "\<not> tags_abort no_upload_faults ?R3"
    by (simp_all add: tags_abort_def no_upload_faults_def list_ex_iff)
  have ab: "tags_abort ?F4 ?R4"
    by (simp add: tags_abort_def no_upload_faults_def raw_hashtags_def example_request_def
        js_str_def upload_tags_def upload_sep_def is_white_space_def starts_with_hash_def)
  have e: "snaps (db ?S) = []" by (simp add: example_server_def)
  have z1: "\<forall>t isUTC. local_tza example_env t isUTC = 0" by (simp add: example_env_def)
  have z2: "(\<forall>t isUTC. local_tza ?E2 t isUTC = 0) \<and> js_now ?E2 = txn_now ?E2"
    by (simp add: example_env_def)
  have n: "js_now example_env = 1005" by (simp add: example_env_def)
  have a1: "expires_at (last (snaps (db (snd (post_snaps example_env no_upload_faults (example_request None) ?S)))))
      = Some (1005 + twelve_hours)"
    using expiry_computed_server_side[OF h1, of 0] na(1) z1 n by metis
  have a2: "expires_at (last (snaps (db (snd (post_snaps ?E2 no_upload_faults (example_request None) ?S)))))
     = Some (created_at (last (snaps (db (snd (post_snaps ?E2 no_upload_faults (example_request None) ?S))))) + twelve_hours)"
    using expiry_computed_server_side[OF h2, of 0] na(1) z2 by blast
  have a3: "expires_at (last (snaps (db (snd (post_snaps example_env no_upload_faults ?R3 ?S)))))
     = expires_at (last (snaps (db (snd (post_snaps example_env no_upload_faults (example_request None) ?S)))))"
    using expiry_computed_server_side[OF h1, of 0] na h3 by blast
  have a4: "snaps (db (snd (post_snaps example_env ?F4 ?R4 ?S))) = []"
    using expiry_computed_server_side[OF h4, of 0] ab e by metis
  from a1 a2 a3 f4 a4 show ?thesis by blast
qed

text \<open>
  Claim C2 as stated fails: with the application clock at 1005 and the transaction
  timestamp at 1000 the stored row has created_at = 1000 and
  expires_at = 1005 + 12h, which is not created_at + 12h.
\<close>

theorem expiry_differs_from_created_plus_ttl_counterexample:
  "post_snaps example_env no_upload_faults (example_request None)
        (example_server [example_user 1 (Some True)])
     = (Created example_summary,
        \<lparr>db = \<lparr>users = [example_user 1 (Some True)], snaps = [example_uploaded []],
               snaps_hashtags = []\<rparr>,
         files = Map.empty, outbox = [example_summary]\<rparr>)
   \<and> created_at (example_uploaded []) = 1000
   \<and> expires_at (example_uploaded []) = Some 43201005
   \<and> expires_at (example_uploaded []) \<noteq> Some (created_at (example_uploaded []) + twelve_hours)"
  by (simp add: upload_defs example_defs js_str_def)

section \<open>The Expiry Reaper\<close>

lemma is_stale_fun: "is_stale now = (\<lambda>s. created_at s < now - twelve_hours)"
  by (rule ext) (simp add: is_stale_def)

lemma reaper_completed:
  assumes "cleanupExpiredSnaps flt now st = (Completed n, st')"
  shows "n = length (filter (is_stale now) (snaps st))"
    and "st' = st\<lparr>snaps := filter (\<lambda>s. \<not> is_stale now s) (snaps st),
                   snaps_hashtags := cascade_hashtags (map snap_id (filter (is_stale now) (snaps st)))
                                       (snaps_hashtags st)\<rparr>"
  using assms by (auto simp: cleanupExpiredSnaps_def Let_def split: if_splits)

lemma reaper_nothing_stale:
  assumes "\<forall>s\<in>set (snaps st). \<not> is_stale now s"
  shows "cleanupExpiredSnaps no_reaper_faults now st = (Completed 0, st)"
proof -
  have "filter (is_stale now) (snaps st) = []"
    using assms by (simp add: filter_empty_conv)
  moreover have "filter (\<lambda>s. \<not> is_stale now s) (snaps st) = snaps st"
    using assms by (simp add: filter_id_conv)
  ultimately show ?thesis
    by (simp add: cleanupExpiredSnaps_def no_reaper_faults_def Let_def cascade_hashtags_def)
qed

text \<open>
  Claim C6. A completed reaper pass at time \<open>now\<close> deletes exactly the snaps with
  created_at < now - 12h and reports their number; every remaining snap has
  created_at >= now - 12h; no hashtag row of a deleted snap is left and the users are
  untouched. A second pass on the result, at the same time or at any time at which no
  remaining row has become stale, completes and deletes 0 rows, leaving the store as
  it is.
\<close>

theorem reaper_pass_exact_and_idempotent:
  assumes "cleanupExpiredSnaps flt now st = (Completed n, st')"
  shows "snaps st' = filter (\<lambda>s. \<not> created_at s < now - twelve_hours) (snaps st)
       \<and> n = length (filter (\<lambda>s. created_at s < now - twelve_hours) (snaps st))
       \<and> (\<forall>s \<in> set (snaps st'). now - twelve_hours \<le> created_at s)
       \<and> (\<forall>s \<in> set (snaps st). created_at s < now - twelve_hours \<longrightarrow>
             snap_id s \<notin> fst ` set (snaps_hashtags st'))
       \<and> users st' = users st
       \<and> cleanupExpiredSnaps no_reaper_faults now st' = (Completed 0, st')
       \<and> (\<forall>now'. (\<forall>s \<in> set (snaps st'). now' - twelve_hours \<le> created_at s) \<longrightarrow>
             cleanupExpiredSnaps no_reaper_faults now' st' = (Completed 0, st'))"
proof -
  note r = reaper_completed[OF assms]
  have s': "snaps st' = filter (\<lambda>s. \<not> is_stale now s) (snaps st)"
    using r(2) by simp
  have fresh: "\<forall>s \<in> set (snaps st'). \<not> is_stale now s"
    using s' by simp
  have c1: "snaps st' = filter (\<lambda>s. \<not> created_at s < now - twelve_hours) (snaps st)"
    using s' by (simp add: is_stale_fun)
  have c2: "n = length (filter (\<lambda>s. created_at s < now - twelve_hours) (snaps st))"
    using r(1) by (simp add: is_stale_fun)
  have c3: "\<forall>s \<in> set (snaps st'). now - twelve_hours \<le> created_at s"
    using fresh by (auto simp: is_stale_def)
  have h': "snaps_hashtags st' =
      cascade_hashtags (map snap_id (filter (is_stale now) (snaps st))) (snaps_hashtags st)"
    using r(2) by simp
  have c4: "\<forall>s \<in> set (snaps st). created_at s < now - twelve_hours \<longrightarrow>
             snap_id s \<notin> fst ` set (snaps_hashtags st')"
    unfolding h' cascade_hashtags_def by (auto simp: is_stale_def)
  have c5: "users st' = users st"
    using r(2) by simp
  have c6: "cleanupExpiredSnaps no_reaper_faults now st' = (Completed 0, st')"
    using fresh by (rule reaper_nothing_stale)
  have c7: "\<forall>now'. (\<forall>s \<in> set (snaps st'). now' - twelve_hours \<le> created_at s) \<longrightarrow>
             cleanupExpiredSnaps no_reaper_faults now' st' = (Completed 0, st')"
  proof (intro allI impI)
    fix now'
    assume a: "\<forall>s \<in> set (snaps st'). now' - twelve_hours \<le> created_at s"
    have "\<forall>s \<in> set (snaps st'). \<not> is_stale now' s"
      using a by (auto simp: is_stale_def)
    then show "cleanupExpiredSnaps no_reaper_faults now' st' = (Completed 0, st')"
      by (rule reaper_nothing_stale)
  qed
  from c1 c2 c3 c4 c5 c6 c7 show ?thesis by blast
qed

theorem reaper_pass_exact_and_idempotent_witness:
  "cleanupExpiredSnaps no_reaper_faults 50000000
     (example_store [example_snap 1 1 0, example_snap 2 1 40000000]
        [(1, js_str ''#old''), (2, js_str ''#new'')])
   = (Completed 1, example_store [example_snap 2 1 40000000] [(2, js_str ''#new'')])
   \<and> cleanupExpiredSnaps no_reaper_faults 50000000
         (example_store [example_snap 2 1 40000000] [(2, js_str ''#new'')])
       = (Completed 0, example_store [example_snap 2 1 40000000] [(2, js_str ''#new'')])
   \<and> cleanupExpiredSnaps no_reaper_faults 60000000
         (example_store [example_snap 2 1 40000000] [(2, js_str ''#new'')])
       = (Completed 0, example_store [example_snap 2 1 40000000] [(2, js_str ''#new'')])
   \<and> 1 \<notin> fst ` set (snaps_hashtags (example_store [example_snap 2 1 40000000] [(2, js_str ''#new'')]))"
proof -
  have h: "cleanupExpiredSnaps no_reaper_faults 50000000
     (example_store [example_snap 1 1 0, example_snap 2 1 40000000]
        [(1, js_str ''#old''), (2, js_str ''#new'')])
   = (Completed 1, example_store [example_snap 2 1 40000000] [(2, js_str ''#new'')])"
    by (simp add: cleanupExpiredSnaps_def no_reaper_faults_def example_store_def example_snap_def
        is_stale_def twelve_hours_def cascade_hashtags_def Let_def)
  have later: "\<forall>s \<in> set (snaps (example_store [example_snap 2 1 40000000] [(2, js_str ''#new'')])).
      60000000 - twelve_hours \<le> created_at s"
    by (simp add: example_store_def example_snap_def twelve_hours_def)
  have old: "example_snap 1 1 0 \<in> set (snaps (example_store [example_snap 1 1 0, example_snap 2 1 40000000]
        [(1, js_str ''#old''), (2, js_str ''#new'')]))"
    "created_at (example_snap 1 1 0) < 50000000 - twelve_hours"
    "snap_id (example_snap 1 1 0) = 1"
    by (simp_all add: example_store_def example_snap_def twelve_hours_def)
  from reaper_pass_exact_and_idempotent[OF h] h later old show ?thesis by metis
qed

section \<open>Read paths: what they depend on\<close>

lemma insort_key_map:
  "insort_key f (g x) (map g ys) = map g (insort_key (\<lambda>y. f (g y)) x ys)"
  by (induction ys) auto

lemma sort_key_map: "sort_key f (map g xs) = map g (sort_key (\<lambda>y. f (g y)) xs)"
  by (induction xs) (auto simp: insort_key_map)

lemma newest_first_map:
  assumes "same_read_columns g"
  shows "newest_first (map g xs) = map g (newest_first xs)"
proof -
  have "(\<lambda>y. - created_at (g y)) = (\<lambda>y. - created_at y)"
    using assms by (simp add: same_read_columns_def)
  then show ?thesis by (simp add: newest_first_def sort_key_map)
qed

lemma feed_row_of_map:
  assumes "same_read_columns g"
  shows "feed_row_of (st\<lparr>snaps := map g (snaps st)\<rparr>) (g s) = feed_row_of st s"
  using assms by (simp add: feed_row_of_def same_read_columns_def hashtag_agg_def Let_def)

lemma feed_query_map:
  assumes "same_read_columns g"
  shows "feed_query limit offset (st\<lparr>snaps := map g (snaps st)\<rparr>) = feed_query limit offset st"
proof -
  have "map (feed_row_of (st\<lparr>snaps := map g (snaps st)\<rparr>) \<circ> g) xs = map (feed_row_of st) xs" for xs
    using feed_row_of_map[OF assms] by simp
  then show ?thesis
    by (simp add: feed_query_def newest_first_map[OF assms] take_map drop_map)
qed

lemma get_feed_map:
  assumes "same_read_columns g"
  shows "get_feed qf cf p l (st\<lparr>snaps := map g (snaps st)\<rparr>) = get_feed qf cf p l st"
  by (simp add: get_feed_def feed_query_map[OF assms] Let_def)

lemma filter_id_map:
  assumes "same_read_columns g"
  shows "filter (\<lambda>s. snap_id s = sid) (map g xs) = map g (filter (\<lambda>s. snap_id s = sid) xs)"
  using assms by (induction xs) (auto simp: same_read_columns_def)

lemma get_snap_image_map:
  assumes "same_read_columns g"
  shows "get_snap_image qf sid (st\<lparr>snaps := map g (snaps st)\<rparr>) = get_snap_image qf sid st"
  using assms
  by (cases "filter (\<lambda>s. snap_id s = sid) (snaps st)")
     (simp_all add: get_snap_image_def filter_id_map[OF assms] same_read_columns_def)

lemma snap_detail_of_map:
  assumes "same_read_columns g"
  shows "snap_detail_of (st\<lparr>snaps := map g (snaps st)\<rparr>) (g s) u = snap_detail_of st s u"
  using assms by (simp add: snap_detail_of_def same_read_columns_def hashtag_agg_def Let_def)

lemma get_snap_map:
  assumes "same_read_columns g"
  shows "get_snap qf sid (st\<lparr>snaps := map g (snaps st)\<rparr>) = get_snap qf sid st"
proof -
  have o: "owner_id (g s) = owner_id s" for s using assms by (simp add: same_read_columns_def)
  have "concat (map (\<lambda>s. map (snap_detail_of (st\<lparr>snaps := map g (snaps st)\<rparr>) s)
                            (filter (\<lambda>u. user_id u = owner_id s) (users st)))
               (map g xs))
      = concat (map (\<lambda>s. map (snap_detail_of st s)
                            (filter (\<lambda>u. user_id u = owner_id s) (users st))) xs)" for xs
    by (induction xs) (simp_all add: snap_detail_of_map[OF assms] o)
  then show ?thesis
    by (simp add: get_snap_def filter_id_map[OF assms])
qed

lemma visibility_same_read_columns: "same_read_columns (\<lambda>s. s\<lparr>is_public := v s\<rparr>)"
  by (simp add: same_read_columns_def)

lemma expiry_same_read_columns: "same_read_columns (\<lambda>s. s\<lparr>expires_at := e s\<rparr>)"
  by (simp add: same_read_columns_def)

lemma feed_limit_bounds: "1 \<le> feed_limit q" "feed_limit q \<le> 50"
  by (auto simp: feed_limit_def split: option.splits)

lemma feed_page_number_pos: "1 \<le> feed_page_number q"
  by (simp add: feed_page_number_def)

lemma get_feed_OK:
  "get_feed False False p l st =
     OK \<lparr>fp_snaps = map process_row (feed_query (feed_limit l) ((feed_page_number p - 1) * feed_limit l) st),
         fp_page = feed_page_number p, fp_limit = feed_limit l,
         fp_total_items = int (length (snaps st)),
         fp_total_pages = ceil_div (int (length (snaps st))) (feed_limit l)\<rparr>"
  by (simp add: get_feed_def Let_def)

lemma process_row_id: "row_id (process_row r) = row_id r"
  by (simp add: process_row_def split: option.splits)

lemma process_row_created_at: "row_created_at (process_row r) = row_created_at r"
  by (simp add: process_row_def split: option.splits)

lemma feed_ids:
  "map row_id (map process_row (feed_query limit offset st)) =
     map snap_id (take (nat limit) (drop (nat offset) (newest_first (snaps st))))"
  by (simp add: feed_query_def process_row_id feed_row_of_def Let_def comp_def)

lemma feed_timestamps:
  "map row_created_at (map process_row (feed_query limit offset st)) =
     map created_at (take (nat limit) (drop (nat offset) (newest_first (snaps st))))"
  by (simp add: feed_query_def process_row_created_at feed_row_of_def Let_def comp_def)

lemma feed_items_window:
  "feed_items p l st =
     map process_row (feed_query (feed_limit l) ((feed_page_number p - 1) * feed_limit l) st)"
  by (simp add: feed_items_def get_feed_OK)

lemma feed_items_ids:
  "map row_id (feed_items p l st) =
     map snap_id (take (nat (feed_limit l)) (drop (nat ((feed_page_number p - 1) * feed_limit l))
        (newest_first (snaps st))))"
  unfolding feed_items_window by (rule feed_ids)

lemma set_newest_first: "set (newest_first xs) = set xs"
  by (simp add: newest_first_def)

lemma length_newest_first: "length (newest_first xs) = length xs"
  by (simp add: newest_first_def)

lemma mset_newest_first: "mset (newest_first xs) = mset xs"
  by (simp add: newest_first_def)

lemma newest_first_sorted: "sorted (map (\<lambda>s. - created_at s) (newest_first xs))"
  by (simp add: newest_first_def)

lemma window_contains:
  assumes "i < length xs" and "0 < l"
  shows "xs ! i \<in> set (take l (drop ((i div l) * l) xs))"
proof -
  let ?k = "(i div l) * l"
  have k: "?k \<le> i" by simp
  have m: "i - ?k = i mod l" by (simp add: minus_div_mult_eq_mod)
  have lt: "i - ?k < l" using assms(2) m by simp
  have len: "i - ?k < length (drop ?k xs)" using assms(1) k by (simp add: diff_less_mono)
  have "take l (drop ?k xs) ! (i - ?k) = xs ! i"
    using lt len k by simp
  moreover have "i - ?k < length (take l (drop ?k xs))" using lt len by simp
  ultimately show ?thesis by (metis nth_mem)
qed

lemma filter_key_singleton:
  "distinct (map f xs) \<Longrightarrow> x \<in> set xs \<Longrightarrow> filter (\<lambda>y. f y = f x) xs = [x]"
proof (induction xs)
  case Nil
  then show ?case by simp
next
  case (Cons a xs)
  show ?case
  proof (cases "a = x")
    case True
    have "f x \<notin> f ` set xs" using Cons.prems(1) True by simp
    then have "filter (\<lambda>y. f y = f x) xs = []"
      by (auto simp: filter_empty_conv image_iff)
    then show ?thesis using True by simp
  next
    case False
    then have "x \<in> set xs" using Cons.prems(2) by simp
    moreover have "f a \<noteq> f x" using Cons.prems(1) \<open>x \<in> set xs\<close> by auto
    ultimately show ?thesis using Cons by simp
  qed
qed

lemma image_exact:
  assumes "s \<in> set (snaps st)" and "distinct (map snap_id (snaps st))"
  shows "get_snap_image False (snap_id s) st = OK (mime_type s, image_data s)"
  using filter_key_singleton[OF assms(2,1)] by (simp add: get_snap_image_def)

lemma snap_exact:
  assumes "s \<in> set (snaps st)" and "distinct (map snap_id (snaps st))"
    and "u \<in> set (users st)" and "user_id u = owner_id s" and "distinct (map user_id (users st))"
  shows "get_snap False (snap_id s) st =
     OK \<lparr>det_id = snap_id s, det_image_url = image_url s, det_caption = caption s,
         det_hashtags = hashtags s, det_hashtag_list = hashtag_agg st (snap_id s),
         det_location = location s, det_created_at = created_at s,
         det_username = username u, det_profile_picture_url = profile_picture_url u\<rparr>"
proof -
  have a: "filter (\<lambda>x. snap_id x = snap_id s) (snaps st) = [s]"
    by (rule filter_key_singleton[OF assms(2,1)])
  have "filter (\<lambda>x. user_id x = user_id u) (users st) = [u]"
    by (rule filter_key_singleton[OF assms(5,3)])
  then have b: "filter (\<lambda>x. user_id x = owner_id s) (users st) = [u]"
    using assms(4) by simp
  show ?thesis by (simp add: get_snap_def a b snap_detail_of_def)
qed

lemma find_of_filter: "filter P xs = [x] \<Longrightarrow> find P xs = Some x"
  by (induction xs) (auto split: if_splits)

lemma owner_found:
  assumes "u \<in> set (users st)" and "user_id u = owner_id s" and "distinct (map user_id (users st))"
  shows "find (\<lambda>x. user_id x = owner_id s) (users st) = Some u"
proof -
  have "filter (\<lambda>x. user_id x = user_id u) (users st) = [u]"
    by (rule filter_key_singleton[OF assms(3,1)])
  then show ?thesis using assms(2) find_of_filter[of "\<lambda>x. user_id x = owner_id s" "users st" u]
    by simp
qed

lemma feed_item_columns:
  "row_id (process_row (feed_row_of st s)) = snap_id s"
  "row_caption (process_row (feed_row_of st s)) = caption s"
  "row_hashtags (process_row (feed_row_of st s)) = hashtags s"
  "row_location (process_row (feed_row_of st s)) = location s"
  "row_created_at (process_row (feed_row_of st s)) = created_at s"
  "row_image_url (process_row (feed_row_of st s)) = ImageUrl (snap_id s)"
  "row_hashtag_list (process_row (feed_row_of st s)) =
     Some (case hashtag_agg st (snap_id s) of
             Some tags \<Rightarrow> tags
           | None \<Rightarrow> (case hashtags s of
                        None \<Rightarrow> []
                      | Some h \<Rightarrow> if h \<noteq> [] then fallback_tags h else []))"
  by (simp_all add: process_row_def feed_row_of_def Let_def split: option.splits)

lemma feed_item_owner_columns:
  assumes "u \<in> set (users st)" and "user_id u = owner_id s" and "distinct (map user_id (users st))"
  shows "row_user_id (process_row (feed_row_of st s)) = Some (user_id u)"
    "row_username (process_row (feed_row_of st s)) = Some (username u)"
    "row_profile_picture_url (process_row (feed_row_of st s)) = profile_picture_url u"
  using owner_found[OF assms]
  by (simp_all add: process_row_def feed_row_of_def Let_def split: option.splits)

lemma some_window:
  assumes "s \<in> set ys" and "0 < k"
  shows "\<exists>n. s \<in> set (take k (drop (n * k) ys))"
proof -
  obtain i where i: "i < length ys" "ys ! i = s" using assms(1) by (auto simp: in_set_conv_nth)
  have "ys ! i \<in> set (take k (drop ((i div k) * k) ys))"
    by (rule window_contains[OF i(1) assms(2)])
  then show ?thesis using i(2) by blast
qed

lemma feed_items_rows:
  "feed_items p l st =
     map process_row (map (feed_row_of st)
       (take (nat (feed_limit l)) (drop (nat ((feed_page_number p - 1) * feed_limit l))
          (newest_first (snaps st)))))"
  by (simp add: feed_items_window feed_query_def)

lemma window_item:
  assumes "s \<in> set (take k (drop j ys))"
  shows "process_row (feed_row_of st s) \<in> set (map process_row (map (feed_row_of st) (take k (drop j ys))))"
  using assms by auto

lemma admissible_window:
  assumes "order_by_created_at_desc (snaps st) ys" and "s \<in> set (snaps st)" and "0 < k"
  shows "\<exists>n. process_row (feed_row_of st s)
               \<in> set (map process_row (map (feed_row_of st) (take k (drop (n * k) ys))))"
proof -
  have "set ys = set (snaps st)"
    using assms(1) by (metis order_by_created_at_desc_def mset_eq_setD)
  then have "s \<in> set ys" using assms(2) by simp
  from some_window[OF this assms(3)] obtain n where "s \<in> set (take k (drop (n * k) ys))" by blast
  from window_item[OF this] show ?thesis by blast
qed

lemma single_page_item:
  assumes "s \<in> set (snaps st)" and "length (snaps st) \<le> nat (feed_limit l)"
    and "feed_page_number p = 1"
  shows "process_row (feed_row_of st s) \<in> set (feed_items p l st)"
proof -
  have "take (nat (feed_limit l)) (drop (nat ((feed_page_number p - 1) * feed_limit l))
          (newest_first (snaps st))) = newest_first (snaps st)"
    using assms(2,3) by (simp add: length_newest_first)
  then have "feed_items p l st = map process_row (map (feed_row_of st) (newest_first (snaps st)))"
    by (simp add: feed_items_rows)
  moreover have "s \<in> set (newest_first (snaps st))" using assms(1) by (simp add: set_newest_first)
  ultimately show ?thesis by auto
qed

lemma some_page_item:
  assumes "s \<in> set (snaps st)"
  shows "\<exists>n. process_row (feed_row_of st s) \<in> set (feed_items (Some (int n + 1)) l st)"
proof -
  let ?k = "nat (feed_limit l)"
  have kpos: "0 < ?k" using feed_limit_bounds(1)[of l] by simp
  have "s \<in> set (newest_first (snaps st))" using assms by (simp add: set_newest_first)
  from some_window[OF this kpos] obtain n
    where n: "s \<in> set (take ?k (drop (n * ?k) (newest_first (snaps st))))" by blast
  have pn: "feed_page_number (Some (int n + 1)) = int n + 1" by (simp add: feed_page_number_def)
  have off: "nat ((feed_page_number (Some (int n + 1)) - 1) * feed_limit l) = n * ?k"
    using kpos unfolding pn by (simp add: nat_mult_distrib)
  have "process_row (feed_row_of st s) \<in> set (feed_items (Some (int n + 1)) l st)"
    unfolding feed_items_rows off by (rule window_item[OF n])
  then show ?thesis by blast
qed

text \<open>
  Claim C9. The visibility flag has no effect on any read path: on two stores that
  differ only in the is_public values of their snaps the feed, the single-snap fetch
  and the image fetch answer the same. Every stored snap is served whatever its flag,
  with its own content. With snap ids distinct (the primary key) the image fetch
  answers 200 with the bytes and the content type of the row. With user ids distinct
  as well and the owner row present, the single-snap fetch answers 200 with the
  columns of the row and of its owner. The feed item of the snap carries the columns
  of the row, the columns of its owner, and the hashtag list. That item is on the
  first page when the table has no more rows than the page size; it is on some page
  when no two snaps share created_at, so that the order of the query is determined;
  and in every order that the query admits it is in one of the consecutive windows
  of the page size.
\<close>

theorem visibility_flag_ignored:
  "get_feed qf cf p l (with_visibility v st) = get_feed qf cf p l st
   \<and> get_snap qf sid (with_visibility v st) = get_snap qf sid st
   \<and> get_snap_image qf sid (with_visibility v st) = get_snap_image qf sid st
   \<and> (\<forall>s \<in> set (snaps st).
         (distinct (map snap_id (snaps st)) \<longrightarrow>
            get_snap_image False (snap_id s) st = OK (mime_type s, image_data s))
       \<and> (\<forall>u \<in> set (users st).
            user_id u = owner_id s \<and> distinct (map user_id (users st)) \<longrightarrow>
              (distinct (map snap_id (snaps st)) \<longrightarrow>
                 get_snap False (snap_id s) st =
                   OK \<lparr>det_id = snap_id s, det_image_url = image_url s, det_caption = caption s,
                       det_hashtags = hashtags s, det_hashtag_list = hashtag_agg st (snap_id s),
                       det_location = location s, det_created_at = created_at s,
                       det_username = username u,
                       det_profile_picture_url = profile_picture_url u\<rparr>)
            \<and> row_user_id (process_row (feed_row_of st s)) = Some (user_id u)
            \<and> row_username (process_row (feed_row_of st s)) = Some (username u)
            \<and> row_profile_picture_url (process_row (feed_row_of st s)) = profile_picture_url u)
       \<and> row_id (process_row (feed_row_of st s)) = snap_id s
       \<and> row_caption (process_row (feed_row_of st s)) = caption s
       \<and> row_hashtags (process_row (feed_row_of st s)) = hashtags s
       \<and> row_location (process_row (feed_row_of st s)) = location s
       \<and> row_created_at (process_row (feed_row_of st s)) = created_at s
       \<and> row_image_url (process_row (feed_row_of st s)) = ImageUrl (snap_id s)
       \<and> row_hashtag_list (process_row (feed_row_of st s)) =
           Some (case hashtag_agg st (snap_id s) of
                   Some tags \<Rightarrow> tags
                 | None \<Rightarrow> (case hashtags s of
                              None \<Rightarrow> []
                            | Some h \<Rightarrow> if h \<noteq> [] then fallback_tags h else []))
       \<and> (length (snaps st) \<le> nat (feed_limit l) \<and> feed_page_number p = 1 \<longrightarrow>
            process_row (feed_row_of st s) \<in> set (feed_items p l st))
       \<and> (distinct (map created_at (snaps st)) \<longrightarrow>
            (\<exists>n. process_row (feed_row_of st s) \<in> set (feed_items (Some (int n + 1)) l st)))
       \<and> (\<forall>ys k. order_by_created_at_desc (snaps st) ys \<and> 0 < k \<longrightarrow>
            (\<exists>n. process_row (feed_row_of st s)
                    \<in> set (map process_row (map (feed_row_of st) (take k (drop (n * k) ys)))))))"
proof -
  have a: "get_feed qf cf p l (with_visibility v st) = get_feed qf cf p l st"
    using get_feed_map[OF visibility_same_read_columns, of qf cf p l v st]
    by (simp add: with_visibility_def)
  have b: "get_snap qf sid (with_visibility v st) = get_snap qf sid st"
    using get_snap_map[OF visibility_same_read_columns, of qf sid v st]
    by (simp add: with_visibility_def)
  have c: "get_snap_image qf sid (with_visibility v st) = get_snap_image qf sid st"
    using get_snap_image_map[OF visibility_same_read_columns, of qf sid v st]
    by (simp add: with_visibility_def)
  have d: "distinct (map snap_id (snaps st)) \<longrightarrow>
            get_snap_image False (snap_id s) st = OK (mime_type s, image_data s)"
    if "s \<in> set (snaps st)" for s
    using image_exact[OF that] by blast
  have e: "(distinct (map snap_id (snaps st)) \<longrightarrow>
                 get_snap False (snap_id s) st =
                   OK \<lparr>det_id = snap_id s, det_image_url = image_url s, det_caption = caption s,
                       det_hashtags = hashtags s, det_hashtag_list = hashtag_agg st (snap_id s),
                       det_location = location s, det_created_at = created_at s,
                       det_username = username u,
                       det_profile_picture_url = profile_picture_url u\<rparr>)
            \<and> row_user_id (process_row (feed_row_of st s)) = Some (user_id u)
            \<and> row_username (process_row (feed_row_of st s)) = Some (username u)
            \<and> row_profile_picture_url (process_row (feed_row_of st s)) = profile_picture_url u"
    if "s \<in> set (snaps st)" "u \<in> set (users st)" "user_id u = owner_id s"
       "distinct (map user_id (users st))" for s u
    using snap_exact[OF that(1) _ that(2,3,4)] feed_item_owner_columns[OF that(2,3,4)]
    by blast
  have f: "length (snaps st) \<le> nat (feed_limit l) \<and> feed_page_number p = 1 \<longrightarrow>
            process_row (feed_row_of st s) \<in> set (feed_items p l st)"
    if "s \<in> set (snaps st)" for s
    using single_page_item[OF that] by blast
  have g: "\<exists>n. process_row (feed_row_of st s) \<in> set (feed_items (Some (int n + 1)) l st)"
    if "s \<in> set (snaps st)" for s
    by (rule some_page_item[OF that])
  have h: "\<forall>ys k. order_by_created_at_desc (snaps st) ys \<and> 0 < k \<longrightarrow>
            (\<exists>n. process_row (feed_row_of st s)
                    \<in> set (map process_row (map (feed_row_of st) (take k (drop (n * k) ys)))))"
    if "s \<in> set (snaps st)" for s
    using admissible_window[OF _ that] by blast
  show ?thesis
    apply (intro conjI ballI)
    subgoal by (rule a)
    subgoal by (rule b)
    subgoal by (rule c)
    subgoal for s by (rule d)
    subgoal for s u using e[of s u] by blast
    subgoal for s by (rule feed_item_columns)
    subgoal for s by (rule feed_item_columns)
    subgoal for s by (rule feed_item_columns)
    subgoal for s by (rule feed_item_columns)
    subgoal for s by (rule feed_item_columns)
    subgoal for s by (rule feed_item_columns)
    subgoal for s by (rule feed_item_columns)
    subgoal for s by (rule f)
    subgoal for s using g[of s] by blast
    subgoal for s by (rule h)
    done
qed

theorem visibility_flag_ignored_witness:
  "get_feed False False None None
      (with_visibility (\<lambda>s. Some True)
         (example_store [(example_snap 7 1 0)\<lparr>is_public := Some False\<rparr>] []))
     = get_feed False False None None
         (example_store [(example_snap 7 1 0)\<lparr>is_public := Some False\<rparr>] [])
   \<and> get_snap_image False 7 (example_store [(example_snap 7 1 0)\<lparr>is_public := Some False\<rparr>] [])
       = OK (js_str ''image/png'', [0x89, 0x50])
   \<and> get_snap False 7 (example_store [(example_snap 7 1 0)\<lparr>is_public := Some False\<rparr>] [])
       = OK \<lparr>det_id = 7, det_image_url = VirtualUrl 0 (js_str ''a.png''), det_caption = None,
             det_hashtags = Some [], det_hashtag_list = None, det_location = Some [],
             det_created_at = 0, det_username = js_str ''ann'',
             det_profile_picture_url = None\<rparr>
   \<and> feed_items None None (example_store [(example_snap 7 1 0)\<lparr>is_public := Some False\<rparr>] [])
       = [example_feed_row 7 0]"
proof -
  let ?s = "(example_snap 7 1 0)\<lparr>is_public := Some False\<rparr>"
  let ?S = "example_store [?s] []"
  have m: "?s \<in> set (snaps ?S)" "example_user 1 (Some True) \<in> set (users ?S)"
    "distinct (map snap_id (snaps ?S))" "distinct (map user_id (users ?S))"
    "user_id (example_user 1 (Some True)) = owner_id ?s"
    "length (snaps ?S) \<le> nat (feed_limit None)" "feed_page_number None = 1"
    "snap_id ?s = 7" "mime_type ?s = js_str ''image/png''" "image_data ?s = [0x89, 0x50]"
    by (simp_all add: example_store_def example_snap_def example_user_def feed_limit_def
          feed_page_number_def)
  have row: "process_row (feed_row_of ?S ?s) = example_feed_row 7 0"
    by (simp add: process_row_def feed_row_of_def example_store_def example_snap_def
          example_user_def example_feed_row_def hashtag_agg_def)
  have len: "length (feed_items None None ?S) = 1"
    by (simp add: feed_items_rows length_newest_first example_store_def feed_limit_def
          feed_page_number_def)
  have det: "image_url ?s = VirtualUrl 0 (js_str ''a.png'')" "caption ?s = None"
    "hashtags ?s = Some []" "hashtag_agg ?S 7 = None" "location ?s = Some []"
    "created_at ?s = 0" "username (example_user 1 (Some True)) = js_str ''ann''"
    "profile_picture_url (example_user 1 (Some True)) = None"
    by (simp_all add: example_store_def example_snap_def example_user_def hashtag_agg_def)
  note inst = visibility_flag_ignored[where st = ?S and v = "\<lambda>s. Some True" and qf = False
      and cf = False and p = None and l = None and sid = 7]
  from inst have feed: "get_feed False False None None (with_visibility (\<lambda>s. Some True) ?S)
      = get_feed False False None None ?S" by blast
  from inst m(1) have per: "(distinct (map snap_id (snaps ?S)) \<longrightarrow>
            get_snap_image False (snap_id ?s) ?S = OK (mime_type ?s, image_data ?s))
       \<and> (\<forall>u \<in> set (users ?S).
            user_id u = owner_id ?s \<and> distinct (map user_id (users ?S)) \<longrightarrow>
              (distinct (map snap_id (snaps ?S)) \<longrightarrow>
                 get_snap False (snap_id ?s) ?S =
                   OK \<lparr>det_id = snap_id ?s, det_image_url = image_url ?s, det_caption = caption ?s,
                       det_hashtags = hashtags ?s, det_hashtag_list = hashtag_agg ?S (snap_id ?s),
                       det_location = location ?s, det_created_at = created_at ?s,
                       det_username = username u,
                       det_profile_picture_url = profile_picture_url u\<rparr>))
       \<and> (length (snaps ?S) \<le> nat (feed_limit None) \<and> feed_page_number None = 1 \<longrightarrow>
            process_row (feed_row_of ?S ?s) \<in> set (feed_items None None ?S))"
    by blast
  from per m(3) have img: "get_snap_image False (snap_id ?s) ?S = OK (mime_type ?s, image_data ?s)"
    by blast
  from per m(2,3,4,5) have one: "get_snap False (snap_id ?s) ?S =
      OK \<lparr>det_id = snap_id ?s, det_image_url = image_url ?s, det_caption = caption ?s,
          det_hashtags = hashtags ?s, det_hashtag_list = hashtag_agg ?S (snap_id ?s),
          det_location = location ?s, det_created_at = created_at ?s,
          det_username = username (example_user 1 (Some True)),
          det_profile_picture_url = profile_picture_url (example_user 1 (Some True))\<rparr>"
    by blast
  from per m(6,7) have "process_row (feed_row_of ?S ?s) \<in> set (feed_items None None ?S)"
    by blast
  then have "example_feed_row 7 0 \<in> set (feed_items None None ?S)" unfolding row .
  with len have items: "feed_items None None ?S = [example_feed_row 7 0]"
    by (cases "feed_items None None ?S") auto
  show ?thesis
    using feed img one items unfolding m(8,9,10) det by blast
qed

section \<open>Read paths and expiry\<close>

lemma reaped_id_gone:
  assumes "cleanupExpiredSnaps flt now st = (Completed n, st')"
    and "distinct (map snap_id (snaps st))"
    and "s \<in> set (snaps st)" and "created_at s < now - twelve_hours"
  shows "filter (\<lambda>x. snap_id x = snap_id s) (snaps st') = []"
proof -
  have s': "snaps st' = filter (\<lambda>x. \<not> is_stale now x) (snaps st)"
    using reaper_completed(2)[OF assms(1)] by simp
  have inj: "inj_on snap_id (set (snaps st))"
    using assms(2) by (simp add: distinct_map)
  have "x \<in> set (snaps st') \<Longrightarrow> snap_id x \<noteq> snap_id s" for x
  proof
    assume x: "x \<in> set (snaps st')" and e: "snap_id x = snap_id s"
    from x s' have xin: "x \<in> set (snaps st)" and fresh: "\<not> is_stale now x" by auto
    from inj xin assms(3) e have "x = s" by (auto dest: inj_onD)
    with fresh assms(4) show False by (simp add: is_stale_def)
  qed
  then show ?thesis by (auto simp: filter_empty_conv)
qed

lemma feed_ids_subset:
  "set (map row_id (map process_row (feed_query limit offset st))) \<subseteq> snap_id ` set (snaps st)"
proof -
  have "set (take (nat limit) (drop (nat offset) (newest_first (snaps st)))) \<subseteq> set (snaps st)"
    using set_take_subset[of "nat limit" "drop (nat offset) (newest_first (snaps st))"]
          set_drop_subset[of "nat offset" "newest_first (snaps st)"]
    by (auto simp: set_newest_first)
  then show ?thesis unfolding feed_ids by auto
qed

lemma get_feed_items:
  "get_feed False False p l st =
     OK \<lparr>fp_snaps = feed_items p l st, fp_page = feed_page_number p, fp_limit = feed_limit l,
         fp_total_items = int (length (snaps st)),
         fp_total_pages = ceil_div (int (length (snaps st))) (feed_limit l)\<rparr>"
  unfolding feed_items_window by (rule get_feed_OK)

lemma feed_items_ids_subset:
  "set (map row_id (feed_items p l st)) \<subseteq> snap_id ` set (snaps st)"
  unfolding feed_items_window by (rule feed_ids_subset)

text \<open>
  Claim C1, as amended. No read path consults expires_at: on two stores that differ
  only in the expiry times of their snaps the feed, the single-snap fetch and the image
  fetch answer the same. What removes a snap from the read paths is the reaper: after
  a completed pass at time \<open>now\<close> over a store with unique snap ids, every snap with
  created_at < now - 12h is not found by the single-snap fetch and by the image fetch
  and is on no feed page, and the feed's totals count the remaining rows only.
\<close>

theorem reads_serve_expired_until_reaped:
  "get_feed qf cf p l (with_expiry e st) = get_feed qf cf p l st
   \<and> get_snap qf sid (with_expiry e st) = get_snap qf sid st
   \<and> get_snap_image qf sid (with_expiry e st) = get_snap_image qf sid st
   \<and> (cleanupExpiredSnaps flt now st = (Completed n, st') \<and> distinct (map snap_id (snaps st)) \<longrightarrow>
        (\<forall>s \<in> set (snaps st). created_at s < now - twelve_hours \<longrightarrow>
            get_snap False (snap_id s) st' = NotFound
          \<and> get_snap_image False (snap_id s) st' = NotFound
          \<and> snap_id s \<notin> set (map row_id (feed_items p l st')))
      \<and> get_feed False False p l st' =
          OK \<lparr>fp_snaps = feed_items p l st',
              fp_page = feed_page_number p, fp_limit = feed_limit l,
              fp_total_items =
                int (length (filter (\<lambda>s. \<not> created_at s < now - twelve_hours) (snaps st))),
              fp_total_pages =
                ceil_div (int (length (filter (\<lambda>s. \<not> created_at s < now - twelve_hours) (snaps st))))
                  (feed_limit l)\<rparr>)"
proof -
  have a: "get_feed qf cf p l (with_expiry e st) = get_feed qf cf p l st"
    using get_feed_map[OF expiry_same_read_columns, of qf cf p l e st] by (simp add: with_expiry_def)
  have b: "get_snap qf sid (with_expiry e st) = get_snap qf sid st"
    using get_snap_map[OF expiry_same_read_columns, of qf sid e st] by (simp add: with_expiry_def)
  have c: "get_snap_image qf sid (with_expiry e st) = get_snap_image qf sid st"
    using get_snap_image_map[OF expiry_same_read_columns, of qf sid e st] by (simp add: with_expiry_def)
  have d: "(\<forall>s \<in> set (snaps st). created_at s < now - twelve_hours \<longrightarrow>
            get_snap False (snap_id s) st' = NotFound
          \<and> get_snap_image False (snap_id s) st' = NotFound
          \<and> snap_id s \<notin> set (map row_id (feed_items p l st')))
      \<and> get_feed False False p l st' =
          OK \<lparr>fp_snaps = feed_items p l st',
              fp_page = feed_page_number p, fp_limit = feed_limit l,
              fp_total_items =
                int (length (filter (\<lambda>s. \<not> created_at s < now - twelve_hours) (snaps st))),
              fp_total_pages =
                ceil_div (int (length (filter (\<lambda>s. \<not> created_at s < now - twelve_hours) (snaps st))))
                  (feed_limit l)\<rparr>"
    if r: "cleanupExpiredSnaps flt now st = (Completed n, st')"
      and dist: "distinct (map snap_id (snaps st))"
  proof (intro conjI ballI impI)
    fix s assume s: "s \<in> set (snaps st)" "created_at s < now - twelve_hours"
    note gone = reaped_id_gone[OF r dist s]
    show "get_snap False (snap_id s) st' = NotFound" by (simp add: get_snap_def gone)
    show "get_snap_image False (snap_id s) st' = NotFound" by (simp add: get_snap_image_def gone)
    have "snap_id s \<notin> snap_id ` set (snaps st')"
      using gone by (auto simp: filter_empty_conv)
    then show "snap_id s \<notin> set (map row_id (feed_items p l st'))"
      using feed_items_ids_subset[of p l st'] by blast
  next
    have s': "snaps st' = filter (\<lambda>s. \<not> created_at s < now - twelve_hours) (snaps st)"
      using reaper_completed(2)[OF r] by (simp add: is_stale_fun)
    show "get_feed False False p l st' =
          OK \<lparr>fp_snaps = feed_items p l st',
              fp_page = feed_page_number p, fp_limit = feed_limit l,
              fp_total_items =
                int (length (filter (\<lambda>s. \<not> created_at s < now - twelve_hours) (snaps st))),
              fp_total_pages =
                ceil_div (int (length (filter (\<lambda>s. \<not> created_at s < now - twelve_hours) (snaps st))))
                  (feed_limit l)\<rparr>"
      unfolding get_feed_items s'[symmetric] ..
  qed
  from a b c d show ?thesis by blast
qed

theorem reads_serve_expired_until_reaped_witness:
  "get_snap False 1 (example_store [example_snap 2 1 40000000] [(2, js_str ''#new'')]) = NotFound
   \<and> get_snap_image False 1 (example_store [example_snap 2 1 40000000] [(2, js_str ''#new'')]) = NotFound
   \<and> 1 \<notin> set (map row_id (feed_items None None
          (example_store [example_snap 2 1 40000000] [(2, js_str ''#new'')])))
   \<and> get_feed False False None None (example_store [example_snap 2 1 40000000] [(2, js_str ''#new'')])
     = OK \<lparr>fp_snaps = feed_items None None
                  (example_store [example_snap 2 1 40000000] [(2, js_str ''#new'')]),
            fp_page = 1, fp_limit = 10, fp_total_items = 1, fp_total_pages = 1\<rparr>"
proof -
  let ?st = "example_store [example_snap 1 1 0, example_snap 2 1 40000000]
        [(1, js_str ''#old''), (2, js_str ''#new'')]"
  let ?st' = "example_store [example_snap 2 1 40000000] [(2, js_str ''#new'')]"
  have h: "cleanupExpiredSnaps no_reaper_faults 50000000 ?st = (Completed 1, ?st')"
    by (simp add: cleanupExpiredSnaps_def no_reaper_faults_def example_store_def example_snap_def
        is_stale_def twelve_hours_def cascade_hashtags_def Let_def)
  have d: "distinct (map snap_id (snaps ?st))"
    by (simp add: example_store_def example_snap_def)
  have s: "example_snap 1 1 0 \<in> set (snaps ?st)"
    "created_at (example_snap 1 1 0) < 50000000 - twelve_hours"
    "snap_id (example_snap 1 1 0) = 1"
    by (simp_all add: example_store_def example_snap_def twelve_hours_def)
  have n: "feed_page_number None = 1" "feed_limit None = 10"
    "int (length (filter (\<lambda>s. \<not> created_at s < 50000000 - twelve_hours) (snaps ?st))) = 1"
    "ceil_div 1 10 = 1"
    by (simp_all add: feed_page_number_def feed_limit_def example_store_def example_snap_def
        twelve_hours_def ceil_div_def)
  note inst = reads_serve_expired_until_reaped[where flt = no_reaper_faults and now = 50000000
      and st = ?st and n = 1 and st' = ?st' and p = None and l = None]
  from inst h d s have a: "get_snap False 1 ?st' = NotFound \<and> get_snap_image False 1 ?st' = NotFound
      \<and> 1 \<notin> set (map row_id (feed_items None None ?st'))"
    by metis
  from inst h d have "get_feed False False None None ?st' =
          OK \<lparr>fp_snaps = feed_items None None ?st',
              fp_page = feed_page_number None, fp_limit = feed_limit None,
              fp_total_items =
                int (length (filter (\<lambda>s. \<not> created_at s < 50000000 - twelve_hours) (snaps ?st))),
              fp_total_pages =
                ceil_div (int (length (filter (\<lambda>s. \<not> created_at s < 50000000 - twelve_hours) (snaps ?st))))
                  (feed_limit None)\<rparr>"
    by blast
  then have b: "get_feed False False None None ?st'
     = OK \<lparr>fp_snaps = feed_items None None ?st',
            fp_page = 1, fp_limit = 10, fp_total_items = 1, fp_total_pages = 1\<rparr>"
    using n by simp
  from a b show ?thesis by blast
qed

text \<open>
  Claim C1 as stated fails: the snap with id 7 expired at 43200000, and at time 50000000
  (before any reaper pass) the feed lists it and counts it, and the single-snap fetch
  and the image fetch return it.
\<close>

theorem expired_snap_served_counterexample:
  "expired 50000000 (example_snap 7 1 0)
   \<and> get_feed False False None None (example_store [example_snap 7 1 0] [])
       = OK \<lparr>fp_snaps = [example_feed_row 7 0], fp_page = 1, fp_limit = 10,
              fp_total_items = 1, fp_total_pages = 1\<rparr>
   \<and> get_snap False 7 (example_store [example_snap 7 1 0] [])
       = OK \<lparr>det_id = 7, det_image_url = VirtualUrl 0 (js_str ''a.png''), det_caption = None,
              det_hashtags = Some [], det_hashtag_list = None, det_location = Some [],
              det_created_at = 0, det_username = js_str ''ann'', det_profile_picture_url = None\<rparr>
   \<and> get_snap_image False 7 (example_store [example_snap 7 1 0] [])
       = OK (js_str ''image/png'', [0x89, 0x50])"
  by (simp add: expired_def read_defs example_snap_def example_store_def example_user_def
      example_feed_row_def twelve_hours_def)

section \<open>Feed ordering\<close>

lemma sorted_wrt_all: "(\<And>x y. x \<in> set xs \<Longrightarrow> y \<in> set xs \<Longrightarrow> P x y) \<Longrightarrow> sorted_wrt P xs"
  by (induction xs) auto

lemma two_levels_sorted:
  "sorted (map (\<lambda>s. - created_at s)
          (filter (\<lambda>s. created_at s = t) xs @ filter (\<lambda>s. created_at s = t - 1) xs))"
proof -
  have a: "sorted_wrt (\<lambda>x y. - created_at x \<le> - created_at y) (filter (\<lambda>s. created_at s = t) xs)"
    by (rule sorted_wrt_all) simp
  have b: "sorted_wrt (\<lambda>x y. - created_at x \<le> - created_at y) (filter (\<lambda>s. created_at s = t - 1) xs)"
    by (rule sorted_wrt_all) simp
  show ?thesis
    unfolding sorted_map sorted_wrt_append using a b by simp
qed

lemma tl_mset:
  assumes "\<forall>s \<in> set xs. created_at s = t \<or> created_at s = t - 1"
  shows "mset (filter (\<lambda>s. created_at s = t) xs @ filter (\<lambda>s. created_at s = t - 1) xs) = mset xs"
  using assms by (induction xs) auto

lemma tl_filter1:
  assumes ck: "created_at k = (t::int)"
  shows "filter (\<lambda>x. - created_at k = - created_at x)
           (filter (\<lambda>s. created_at s = t) xs @ filter (\<lambda>s. created_at s = t - 1) xs)
         = filter (\<lambda>x. - created_at k = - created_at x) xs"
proof -
  have 1: "filter (\<lambda>x. - created_at k = - created_at x) (filter (\<lambda>s. created_at s = t) xs)
         = filter (\<lambda>x. - created_at k = - created_at x) xs"
    unfolding filter_filter by (rule filter_cong) (use ck in auto)
  have 2: "filter (\<lambda>x. - created_at k = - created_at x) (filter (\<lambda>s. created_at s = t - 1) xs) = []"
    unfolding filter_filter filter_empty_conv using ck by auto
  show ?thesis unfolding filter_append 1 2 by simp
qed

lemma tl_filter2:
  assumes ck: "created_at k = (t::int) - 1"
  shows "filter (\<lambda>x. - created_at k = - created_at x)
           (filter (\<lambda>s. created_at s = t) xs @ filter (\<lambda>s. created_at s = t - 1) xs)
         = filter (\<lambda>x. - created_at k = - created_at x) xs"
proof -
  have 1: "filter (\<lambda>x. - created_at k = - created_at x) (filter (\<lambda>s. created_at s = t - 1) xs)
         = filter (\<lambda>x. - created_at k = - created_at x) xs"
    unfolding filter_filter by (rule filter_cong) (use ck in auto)
  have 2: "filter (\<lambda>x. - created_at k = - created_at x) (filter (\<lambda>s. created_at s = t) xs) = []"
    unfolding filter_filter filter_empty_conv using ck by auto
  show ?thesis unfolding filter_append 1 2 by simp
qed

lemma newest_first_two_levels:
  assumes "\<forall>s \<in> set xs. created_at s = t \<or> created_at s = t - 1"
  shows "newest_first xs =
           filter (\<lambda>s. created_at s = t) xs @ filter (\<lambda>s. created_at s = t - 1) xs"
  unfolding newest_first_def
proof (rule properties_for_sort_key)
  show "mset (filter (\<lambda>s. created_at s = t) xs @ filter (\<lambda>s. created_at s = t - 1) xs) = mset xs"
    using assms by (rule tl_mset)
next
  fix k
  assume "k \<in> set (filter (\<lambda>s. created_at s = t) xs @ filter (\<lambda>s. created_at s = t - 1) xs)"
  then have "created_at k = t \<or> created_at k = t - 1" by auto
  then show "filter (\<lambda>x. - created_at k = - created_at x)
           (filter (\<lambda>s. created_at s = t) xs @ filter (\<lambda>s. created_at s = t - 1) xs)
         = filter (\<lambda>x. - created_at k = - created_at x) xs"
    using tl_filter1[of k t xs] tl_filter2[of k t xs] by blast
next
  show "sorted (map (\<lambda>s. - created_at s)
          (filter (\<lambda>s. created_at s = t) xs @ filter (\<lambda>s. created_at s = t - 1) xs))"
    by (rule two_levels_sorted)
qed

lemma newest_first_content:
  assumes "mset xs = mset ys" and "distinct (map created_at xs)"
  shows "newest_first xs = newest_first ys"
  unfolding newest_first_def
proof (rule sort_key_inj_key_eq)
  show "mset xs = mset (sort_key (\<lambda>s. - created_at s) ys)" using assms(1) by simp
  show "inj_on (\<lambda>s. - created_at s) (set xs)"
    using assms(2) by (auto simp: distinct_map inj_on_def)
  show "sorted (map (\<lambda>s. - created_at s) (sort_key (\<lambda>s. - created_at s) ys))" by simp
qed

lemma feed_timestamps_descending:
  "sorted (map (\<lambda>r. - row_created_at r) (map process_row (feed_query limit offset st)))"
proof -
  let ?w = "take (nat limit) (drop (nat offset) (newest_first (snaps st)))"
  have "sorted (map (\<lambda>s. - created_at s) ?w)"
    using newest_first_sorted[of "snaps st"]
    by (simp add: take_map[symmetric] drop_map[symmetric] sorted_wrt_take sorted_wrt_drop)
  moreover have "map (\<lambda>r. - row_created_at r) (map process_row (feed_query limit offset st))
      = map (\<lambda>s. - created_at s) ?w"
    by (simp add: feed_query_def process_row_created_at feed_row_of_def Let_def comp_def)
  ultimately show ?thesis by simp
qed

lemma first_page_of_two_ids:
  "map row_id (feed_items (Some 1) (Some 2) st) = map snap_id (take 2 (newest_first (snaps st)))"
  unfolding feed_items_ids by (simp add: feed_limit_def feed_page_number_def)

lemma feed_query_content:
  assumes "mset (snaps st) = mset (snaps st2)" and "users st = users st2"
    and "snaps_hashtags st = snaps_hashtags st2" and "distinct (map created_at (snaps st))"
  shows "feed_query limit offset st = feed_query limit offset st2"
proof -
  have "feed_row_of st = feed_row_of st2"
    using assms(2,3) by (intro ext) (simp add: feed_row_of_def hashtag_agg_def Let_def)
  then show ?thesis
    using newest_first_content[OF assms(1,4)] by (simp add: feed_query_def)
qed

lemma get_feed_content:
  assumes "mset (snaps st) = mset (snaps st2)" and "users st = users st2"
    and "snaps_hashtags st = snaps_hashtags st2" and "distinct (map created_at (snaps st))"
  shows "get_feed qf cf p l st = get_feed qf cf p l st2"
proof -
  have "length (snaps st) = length (snaps st2)" using assms(1) by (rule mset_eq_length)
  then show ?thesis
    by (simp add: get_feed_def Let_def feed_query_content[OF assms])
qed

lemma two_ties_first_page:
  assumes m: "mset (snaps st) = {#a, b, c#}"
    and t: "created_at a = t" "created_at b = t" "created_at c = t - 1"
  shows "mset (map row_id (feed_items (Some 1) (Some 2) st)) = {#snap_id a, snap_id b#}"
proof -
  let ?xs = "snaps st"
  let ?A = "filter (\<lambda>s. created_at s = t) ?xs"
  have "set ?xs = {a, b, c}" using m by (metis mset_eq_setD set_mset_add_mset_insert set_mset_empty set_mset_mset)
  then have "\<forall>s \<in> set ?xs. created_at s = t \<or> created_at s = t - 1" using t by auto
  then have nf: "newest_first ?xs = ?A @ filter (\<lambda>s. created_at s = t - 1) ?xs"
    by (rule newest_first_two_levels)
  have mA: "mset ?A = {#a, b#}" using m t by simp
  have "length ?A = size (mset ?A)" by (simp only: size_mset)
  then have lA: "length ?A = 2" unfolding mA by simp
  have "map row_id (feed_items (Some 1) (Some 2) st) = map snap_id ?A"
    unfolding first_page_of_two_ids nf using lA by simp
  then have "mset (map row_id (feed_items (Some 1) (Some 2) st)) = image_mset snap_id (mset ?A)"
    by simp
  then show ?thesis unfolding mA by simp
qed

lemma ties_in_table_order:
  assumes "snaps st = [a, b, c]"
    and "created_at a = t" "created_at b = t" "created_at c = t - 1"
  shows "map row_id (feed_items (Some 1) (Some 2) st) = [snap_id a, snap_id b]"
  unfolding first_page_of_two_ids using assms by (simp add: newest_first_def)

lemma newest_first_admissible: "order_by_created_at_desc xs (newest_first xs)"
  by (simp add: order_by_created_at_desc_def newest_first_def)

lemma newest_first_of_sorted:
  "sorted (map (\<lambda>s. - created_at s) ys) \<Longrightarrow> newest_first ys = ys"
  unfolding newest_first_def by (rule sort_key_id_if_sorted)

lemma two_ties_list:
  assumes m: "mset ys = {#a, b, c#}"
    and t: "created_at a = t" "created_at b = t" "created_at c = t - 1"
  shows "mset (take 2 (newest_first ys)) = {#a, b#}"
proof -
  let ?A = "filter (\<lambda>s. created_at s = t) ys"
  have "set ys = {a, b, c}"
    using m by (metis mset_eq_setD set_mset_add_mset_insert set_mset_empty set_mset_mset)
  then have "\<forall>s \<in> set ys. created_at s = t \<or> created_at s = t - 1" using t by auto
  then have nf: "newest_first ys = ?A @ filter (\<lambda>s. created_at s = t - 1) ys"
    by (rule newest_first_two_levels)
  have mA: "mset ?A = {#a, b#}" using m t by simp
  have "length ?A = size (mset ?A)" by (simp only: size_mset)
  then have lA: "length ?A = 2" unfolding mA by simp
  have "take 2 (newest_first ys) = ?A" unfolding nf using lA by simp
  then show ?thesis using mA by simp
qed

lemma admissible_two_ties:
  assumes "order_by_created_at_desc xs ys" and "mset xs = {#a, b, c#}"
    and "created_at a = t" "created_at b = t" "created_at c = t - 1"
  shows "mset (take 2 ys) = {#a, b#}"
proof -
  have "newest_first ys = ys" and "mset ys = {#a, b, c#}"
    using assms(1,2) by (simp_all add: order_by_created_at_desc_def newest_first_of_sorted)
  then show ?thesis using two_ties_list[of ys a b c t] assms(3-5) by simp
qed

lemma admissible_unique:
  assumes "order_by_created_at_desc xs ys" and "distinct (map created_at xs)"
  shows "ys = newest_first xs"
proof -
  have "sort_key (\<lambda>s. - created_at s) xs = ys"
  proof (rule sort_key_inj_key_eq)
    show "mset xs = mset ys" using assms(1) by (simp add: order_by_created_at_desc_def)
    show "inj_on (\<lambda>s. - created_at s) (set xs)"
      using assms(2) by (auto simp: distinct_map inj_on_def)
    show "sorted (map (\<lambda>s. - created_at s) ys)"
      using assms(1) by (simp add: order_by_created_at_desc_def)
  qed
  then show ?thesis by (simp add: newest_first_def)
qed

text \<open>
  Claim C3, as amended. The feed is sorted by created_at, newest first, and by nothing
  else. The order the model produces is one that ORDER BY created_at DESC admits, and
  the timestamps on every page are non-increasing. When all snaps have different
  created_at there is only one admissible order, and the answer is determined by the
  rows alone, in whatever order the table holds them. Given three snaps with
  created_at = [t, t, t-1], the first two rows of every admissible order are the two
  snaps with timestamp t, so page 1 with limit 2 always consists of these two; they
  appear in the order in which the table delivers them, not in an order by id.
\<close>

theorem feed_ordered_by_created_at_only:
  "order_by_created_at_desc (snaps st) (newest_first (snaps st))
   \<and> sorted (map (\<lambda>r. - row_created_at r) (feed_items p l st))
   \<and> (order_by_created_at_desc xs ys \<and> distinct (map created_at xs) \<longrightarrow> ys = newest_first xs)
   \<and> (mset (snaps st) = mset (snaps st2) \<and> users st = users st2
        \<and> snaps_hashtags st = snaps_hashtags st2 \<and> distinct (map created_at (snaps st))
        \<longrightarrow> get_feed qf cf p l st = get_feed qf cf p l st2)
   \<and> (order_by_created_at_desc xs ys \<and> mset xs = {#a, b, c#}
        \<and> created_at a = t \<and> created_at b = t \<and> created_at c = t - 1
        \<longrightarrow> mset (take 2 ys) = {#a, b#})
   \<and> (mset (snaps st) = {#a, b, c#} \<and> created_at a = t \<and> created_at b = t \<and> created_at c = t - 1
        \<longrightarrow> mset (map row_id (feed_items (Some 1) (Some 2) st)) = {#snap_id a, snap_id b#})
   \<and> (snaps st = [a, b, c] \<and> created_at a = t \<and> created_at b = t \<and> created_at c = t - 1
        \<longrightarrow> map row_id (feed_items (Some 1) (Some 2) st) = [snap_id a, snap_id b])"
proof -
  have c0: "order_by_created_at_desc (snaps st) (newest_first (snaps st))"
    by (rule newest_first_admissible)
  have c1: "sorted (map (\<lambda>r. - row_created_at r) (feed_items p l st))"
    unfolding feed_items_window by (rule feed_timestamps_descending)
  have c2: "order_by_created_at_desc xs ys \<and> distinct (map created_at xs) \<longrightarrow> ys = newest_first xs"
    using admissible_unique[of xs ys] by blast
  have c3: "mset (snaps st) = mset (snaps st2) \<and> users st = users st2
        \<and> snaps_hashtags st = snaps_hashtags st2 \<and> distinct (map created_at (snaps st))
        \<longrightarrow> get_feed qf cf p l st = get_feed qf cf p l st2"
    using get_feed_content[of st st2 qf cf p l] by blast
  have c4: "order_by_created_at_desc xs ys \<and> mset xs = {#a, b, c#}
        \<and> created_at a = t \<and> created_at b = t \<and> created_at c = t - 1
        \<longrightarrow> mset (take 2 ys) = {#a, b#}"
    using admissible_two_ties[of xs ys a b c t] by blast
  have c5: "mset (snaps st) = {#a, b, c#} \<and> created_at a = t \<and> created_at b = t \<and> created_at c = t - 1
        \<longrightarrow> mset (map row_id (feed_items (Some 1) (Some 2) st)) = {#snap_id a, snap_id b#}"
    using two_ties_first_page[of st a b c t] by blast
  have c6: "snaps st = [a, b, c] \<and> created_at a = t \<and> created_at b = t \<and> created_at c = t - 1
        \<longrightarrow> map row_id (feed_items (Some 1) (Some 2) st) = [snap_id a, snap_id b]"
    using ties_in_table_order[of st a b c t] by blast
  from c0 c1 c2 c3 c4 c5 c6 show ?thesis by blast
qed

theorem feed_ordered_by_created_at_only_witness:
  "map row_id (feed_items (Some 1) (Some 2)
      (example_store [example_snap 2 1 100, example_snap 1 1 100, example_snap 3 1 99] [])) = [2, 1]
   \<and> mset (map row_id (feed_items (Some 1) (Some 2)
      (example_store [example_snap 3 1 99, example_snap 1 1 100, example_snap 2 1 100] []))) = {#1, 2#}
   \<and> get_feed False False None None (example_store [example_snap 1 1 100, example_snap 2 1 99] [])
       = get_feed False False None None (example_store [example_snap 2 1 99, example_snap 1 1 100] [])
   \<and> mset (take 2 [example_snap 2 1 100, example_snap 1 1 100, example_snap 3 1 99])
       = {#example_snap 1 1 100, example_snap 2 1 100#}
   \<and> [example_snap 1 1 100, example_snap 2 1 99] = newest_first [example_snap 2 1 99, example_snap 1 1 100]"
proof -
  have s1: "snaps (example_store [example_snap 2 1 100, example_snap 1 1 100, example_snap 3 1 99] [])
      = [example_snap 2 1 100, example_snap 1 1 100, example_snap 3 1 99]"
    by (simp add: example_store_def)
  have s2: "mset (snaps (example_store [example_snap 3 1 99, example_snap 1 1 100, example_snap 2 1 100] []))
      = {#example_snap 1 1 100, example_snap 2 1 100, example_snap 3 1 99#}"
    by (simp add: example_store_def)
  have t: "created_at (example_snap 2 1 100) = 100" "created_at (example_snap 1 1 100) = 100"
    "created_at (example_snap 3 1 99) = 100 - 1"
    "snap_id (example_snap 2 1 100) = 2" "snap_id (example_snap 1 1 100) = 1"
    by (simp_all add: example_snap_def)
  from feed_ordered_by_created_at_only[where st = "example_store [example_snap 2 1 100, example_snap 1 1 100, example_snap 3 1 99] []"
      and a = "example_snap 2 1 100" and b = "example_snap 1 1 100" and c = "example_snap 3 1 99" and t = 100] s1 t
  have w1: "map row_id (feed_items (Some 1) (Some 2)
      (example_store [example_snap 2 1 100, example_snap 1 1 100, example_snap 3 1 99] [])) = [2, 1]"
    by metis
  from feed_ordered_by_created_at_only[where st = "example_store [example_snap 3 1 99, example_snap 1 1 100, example_snap 2 1 100] []"
      and a = "example_snap 1 1 100" and b = "example_snap 2 1 100" and c = "example_snap 3 1 99" and t = 100] s2 t
  have w2: "mset (map row_id (feed_items (Some 1) (Some 2)
      (example_store [example_snap 3 1 99, example_snap 1 1 100, example_snap 2 1 100] []))) = {#1, 2#}"
    by metis
  have d: "mset (snaps (example_store [example_snap 1 1 100, example_snap 2 1 99] []))
        = mset (snaps (example_store [example_snap 2 1 99, example_snap 1 1 100] []))
      \<and> users (example_store [example_snap 1 1 100, example_snap 2 1 99] [])
        = users (example_store [example_snap 2 1 99, example_snap 1 1 100] [])
      \<and> snaps_hashtags (example_store [example_snap 1 1 100, example_snap 2 1 99] [])
        = snaps_hashtags (example_store [example_snap 2 1 99, example_snap 1 1 100] [])
      \<and> distinct (map created_at (snaps (example_store [example_snap 1 1 100, example_snap 2 1 99] [])))"
    by (simp add: example_store_def example_snap_def)
  from feed_ordered_by_created_at_only[where st = "example_store [example_snap 1 1 100, example_snap 2 1 99] []"
      and ?st2.0 = "example_store [example_snap 2 1 99, example_snap 1 1 100] []"
      and qf = False and cf = False and p = None and l = None] d
  have w3: "get_feed False False None None (example_store [example_snap 1 1 100, example_snap 2 1 99] [])
       = get_feed False False None None (example_store [example_snap 2 1 99, example_snap 1 1 100] [])"
    by blast
  have o1: "order_by_created_at_desc [example_snap 1 1 100, example_snap 2 1 100, example_snap 3 1 99]
              [example_snap 2 1 100, example_snap 1 1 100, example_snap 3 1 99]
      \<and> mset [example_snap 1 1 100, example_snap 2 1 100, example_snap 3 1 99]
          = {#example_snap 1 1 100, example_snap 2 1 100, example_snap 3 1 99#}"
    by (simp add: order_by_created_at_desc_def example_snap_def)
  from feed_ordered_by_created_at_only[
      where xs = "[example_snap 1 1 100, example_snap 2 1 100, example_snap 3 1 99]"
      and ys = "[example_snap 2 1 100, example_snap 1 1 100, example_snap 3 1 99]"
      and a = "example_snap 1 1 100" and b = "example_snap 2 1 100" and c = "example_snap 3 1 99" and t = 100] o1 t
  have w4: "mset (take 2 [example_snap 2 1 100, example_snap 1 1 100, example_snap 3 1 99])
       = {#example_snap 1 1 100, example_snap 2 1 100#}"
    by metis
  have o2: "order_by_created_at_desc [example_snap 2 1 99, example_snap 1 1 100]
              [example_snap 1 1 100, example_snap 2 1 99]
      \<and> distinct (map created_at [example_snap 2 1 99, example_snap 1 1 100])"
    by (simp add: order_by_created_at_desc_def example_snap_def)
  from feed_ordered_by_created_at_only[
      where xs = "[example_snap 2 1 99, example_snap 1 1 100]"
      and ys = "[example_snap 1 1 100, example_snap 2 1 99]"] o2
  have w5: "[example_snap 1 1 100, example_snap 2 1 99] = newest_first [example_snap 2 1 99, example_snap 1 1 100]"
    by blast
  from w1 w2 w3 w4 w5 show ?thesis by blast
qed

text \<open>
  Claim C3 as stated fails: for the three rows with ids 1, 2, 3 and created_at 100, 100
  and 99 the query admits the order 1, 2, 3 as well as the order 2, 1, 3, so that page
  1 with limit 2 may list the ids 1, 2 or the ids 2, 1; the model returns the one or the
  other, depending on the order in which the table delivers the same three rows. The
  snap id does not break the tie.
\<close>

theorem feed_tie_order_not_by_id_counterexample:
  "order_by_created_at_desc
      (snaps (example_store [example_snap 1 1 100, example_snap 2 1 100, example_snap 3 1 99] []))
      [example_snap 1 1 100, example_snap 2 1 100, example_snap 3 1 99]
   \<and> order_by_created_at_desc
      (snaps (example_store [example_snap 1 1 100, example_snap 2 1 100, example_snap 3 1 99] []))
      [example_snap 2 1 100, example_snap 1 1 100, example_snap 3 1 99]
   \<and> map created_at (snaps (example_store [example_snap 1 1 100, example_snap 2 1 100, example_snap 3 1 99] []))
       = [100, 100, 99]
   \<and> map snap_id (take 2 [example_snap 1 1 100, example_snap 2 1 100, example_snap 3 1 99]) = [1, 2]
   \<and> map snap_id (take 2 [example_snap 2 1 100, example_snap 1 1 100, example_snap 3 1 99]) = [2, 1]
   \<and> map row_id (feed_items (Some 1) (Some 2)
        (example_store [example_snap 1 1 100, example_snap 2 1 100, example_snap 3 1 99] [])) = [1, 2]
   \<and> map row_id (feed_items (Some 1) (Some 2)
        (example_store [example_snap 2 1 100, example_snap 1 1 100, example_snap 3 1 99] [])) = [2, 1]"
  by (simp add: order_by_created_at_desc_def feed_items_def read_defs example_store_def
      example_snap_def example_user_def)

section \<open>The view counter\<close>

lemma post_snaps_view_count:
  assumes "post_snaps env flt req sv = (resp, sv')" and "s \<in> set (snaps (db sv'))"
  shows "s \<in> set (snaps (db sv)) \<or> (view_count s = Some 0 \<and> snap_id s \<notin> snap_id ` set (snaps (db sv)))"
  using assms(1)
proof (cases rule: post_snaps_cases)
  case rejected
  then show ?thesis using assms(2) by simp
next
  case (failed f)
  then show ?thesis using assms(2) by simp
next
  case (created uid u f imageData)
  note r = insert_and_commit_Inr[OF created(5)]
  show ?thesis
  proof (cases "tags_abort flt req")
    case True
    then show ?thesis using assms(2) r(10) by simp
  next
    case False
    from assms(2) r(5)[OF False]
    have "s \<in> set (snaps (db sv)) \<or> s = new_snap_row env req f uid imageData"
      by auto
    then show ?thesis using r(3) by (auto simp: new_snap_row_def)
  qed
qed

lemma upload_route_view_count:
  assumes "s \<in> set (snaps (db (snd (upload_route env flt req content sv))))"
  shows "s \<in> set (snaps (db sv)) \<or> (view_count s = Some 0 \<and> snap_id s \<notin> snap_id ` set (snaps (db sv)))"
proof (cases "authenticateToken (req_auth req)")
  case (Some r)
  then show ?thesis using assms by (simp add: upload_route_def)
next
  case None
  show ?thesis
  proof (cases "multer_single req content sv")
    case (Inl e)
    then show ?thesis using assms None by (simp add: upload_route_def)
  next
    case (Inr sv1)
    have d: "db sv1 = db sv"
      using Inr by (auto simp: multer_single_def split: option.splits if_splits)
    have "upload_route env flt req content sv = post_snaps env flt req sv1"
      using None Inr by (simp add: upload_route_def post_snaps_def)
    then have "s \<in> set (snaps (db (snd (post_snaps env flt req sv1))))" using assms by simp
    from post_snaps_view_count[OF prod.collapse[symmetric] this] show ?thesis
      unfolding d .
  qed
qed

lemma reaper_keeps_rows:
  "set (snaps (snd (cleanupExpiredSnaps flt now st))) \<subseteq> set (snaps st)"
  by (auto simp: cleanupExpiredSnaps_def Let_def)

lemma signup_keeps_snaps: "snaps (snd (signup hash new_id sf isf req st)) = snaps st"
  by (auto simp: signup_def Let_def split: option.splits)

lemma step_view_count:
  assumes "s \<in> set (snaps (db (step op sv)))"
  shows "s \<in> set (snaps (db sv)) \<or> (view_count s = Some 0 \<and> snap_id s \<notin> snap_id ` set (snaps (db sv)))"
proof (cases op)
  case (Upload env flt req content)
  then show ?thesis using assms upload_route_view_count[of s env flt req content sv] by simp
next
  case (Reap flt now)
  then show ?thesis using assms reaper_keeps_rows[of flt now "db sv"] by auto
next
  case (Signup hash new_id sf isf req)
  then show ?thesis using assms by (simp add: signup_keeps_snaps)
qed (use assms in simp_all)

lemma run_view_count:
  assumes "\<forall>s \<in> set (snaps (db sv)). view_count s = Some 0"
  shows "\<forall>s \<in> set (snaps (db (run ops sv))). view_count s = Some 0"
  using assms
proof (induction ops arbitrary: sv)
  case Nil
  then show ?case by simp
next
  case (Cons op ops)
  have "\<forall>s \<in> set (snaps (db (step op sv))). view_count s = Some 0"
    using Cons.prems step_view_count[of _ op sv] by blast
  then show ?case using Cons.IH[of "step op sv"] by simp
qed

lemma example_run_result:
  "run example_run initial_server =
     \<lparr>db = \<lparr>users = [example_user 1 (Some True)], snaps = [example_uploaded []], snaps_hashtags = []\<rparr>,
      files = Map.empty, outbox = [example_summary]\<rparr>"
  by (simp add: example_run_def initial_server_def empty_store_def signup_def upload_route_def
      multer_single_def allowed_types_def upload_defs example_defs js_str_def
      cleanupExpiredSnaps_def no_reaper_faults_def is_stale_def cascade_hashtags_def)

text \<open>
  Claim C10. No operation modifies a snap's view_count. After any single operation
  (upload, reaper pass, feed, single-snap fetch, image fetch, signup, login) every snap
  row of the store is either a row that was there before, unchanged, or a newly
  inserted row with a new id and view_count 0. Hence when all view counts are 0 they
  stay 0 along every run, and they are 0 in every state reached from the empty server.
\<close>

theorem view_count_never_modified:
  "(\<forall>s \<in> set (snaps (db (step op sv))).
       s \<in> set (snaps (db sv)) \<or> (view_count s = Some 0 \<and> snap_id s \<notin> snap_id ` set (snaps (db sv))))
   \<and> ((\<forall>s \<in> set (snaps (db sv)). view_count s = Some 0) \<longrightarrow>
        (\<forall>s \<in> set (snaps (db (run ops sv))). view_count s = Some 0))
   \<and> (\<forall>s \<in> set (snaps (db (run ops initial_server))). view_count s = Some 0)"
proof -
  have c1: "\<forall>s \<in> set (snaps (db (step op sv))).
       s \<in> set (snaps (db sv)) \<or> (view_count s = Some 0 \<and> snap_id s \<notin> snap_id ` set (snaps (db sv)))"
    using step_view_count[of _ op sv] by blast
  have c2: "(\<forall>s \<in> set (snaps (db sv)). view_count s = Some 0) \<longrightarrow>
        (\<forall>s \<in> set (snaps (db (run ops sv))). view_count s = Some 0)"
    using run_view_count[of sv ops] by blast
  have "\<forall>s \<in> set (snaps (db initial_server)). view_count s = Some 0"
    by (simp add: initial_server_def empty_store_def)
  then have c3: "\<forall>s \<in> set (snaps (db (run ops initial_server))). view_count s = Some 0"
    by (rule run_view_count)
  from c1 c2 c3 show ?thesis by blast
qed

theorem view_count_never_modified_witness:
  "map snap_id (snaps (db (run example_run initial_server))) = [7]
   \<and> map view_count (snaps (db (run example_run initial_server))) = [Some 0]
   \<and> view_count (example_uploaded []) = Some 0
   \<and> map view_count (snaps (db (run [Reap no_reaper_faults 1000, Feed False False None None]
          \<lparr>db = example_store [example_snap 1 1 0] [], files = Map.empty, outbox = []\<rparr>)))
       = [Some 0]"
proof -
  let ?U = "Upload example_env no_upload_faults (example_request None) [0x89, 0x50]"
  let ?S = "example_server [example_user 1 (Some True)]"
  let ?T = "\<lparr>db = example_store [example_snap 1 1 0] [], files = Map.empty, outbox = []\<rparr> :: server"
  have a: "\<forall>s \<in> set (snaps (db (run example_run initial_server))). view_count s = Some 0"
    using view_count_never_modified[of _ _ example_run] by blast
  have st: "example_uploaded [] \<in> set (snaps (db (step ?U ?S)))"
    "example_uploaded [] \<notin> set (snaps (db ?S))"
    by (simp_all add: upload_route_def multer_single_def allowed_types_def upload_defs
        example_defs js_str_def)
  have b: "view_count (example_uploaded []) = Some 0"
    using view_count_never_modified[of ?U ?S] st by blast
  have inv: "\<forall>s \<in> set (snaps (db ?T)). view_count s = Some 0"
    by (simp add: example_store_def example_snap_def)
  have c: "\<forall>s \<in> set (snaps (db (run [Reap no_reaper_faults 1000, Feed False False None None] ?T))).
        view_count s = Some 0"
    using view_count_never_modified[of _ ?T "[Reap no_reaper_faults 1000, Feed False False None None]"] inv
    by blast
  have r: "snaps (db (run [Reap no_reaper_faults 1000, Feed False False None None] ?T))
      = [example_snap 1 1 0]"
    by (simp add: cleanupExpiredSnaps_def no_reaper_faults_def example_store_def example_snap_def
        is_stale_def twelve_hours_def cascade_hashtags_def Let_def)
  from a b c show ?thesis unfolding r by (simp add: example_run_result example_uploaded_def)
qed

end
